theory Spec2Isabelle
  imports Complex_Main "HOL-Library.Sublist"
begin

section \<open>Station Agricole: telemetry ingestion of \<open>server.js\<close>\<close>

text \<open>
  The development embeds the ingestion pipeline of \<open>server.js\<close>: the JSON path
  extractor, the handlers that update sensors and reservoirs, the bounded history, the
  history query and the routing of an inbound MQTT message.

  Conventions of the embedding.
  \<^item> A JavaScript number is a \<open>real\<close>: the handlers only compare, clamp and store
    numbers, and these operations are exact on finite doubles; the infinities are not
    values of the model. \<open>NaN\<close> never reaches a
    handler (the callers test \<open>isNaN\<close>), and where a builtin may produce it the model
    returns \<open>None\<close>.
  \<^item> A \<open>Date\<close> is an \<open>int\<close>, the milliseconds since the epoch. Each handler takes
    the reading \<open>now\<close> of the clock; the readings \<open>new Date()\<close> made inside one
    synchronous handler call are taken to be that one reading.
  \<^item> A string is the sequence of the UTF-8 bytes of the JavaScript string: the
    separators and literals that the code looks for are ASCII, and an ASCII byte never
    occurs inside the encoding of another character.
  \<^item> \<open>io.emit\<close> is the list of events a handler returns.
  \<^item> An exception that leaves a handler is returned beside what the handler did before
    it; the \<open>try / catch\<close> around the \<open>message\<close> callback ends the callback there.
  \<^item> \<open>stationData.lastSaved\<close> and \<open>saveDataToFile\<close> (persistence) are left out.
\<close>

subsection \<open>JavaScript values and string builtins\<close>

datatype jsval =
    JUndefined
  | JNull
  | JBool bool
  | JNum real
  | JStr string
  | JArr "jsval list"
  | JObj "(string \<times> jsval) list"

datatype exn = TypeError

type_synonym time = int

definition truthy :: "jsval \<Rightarrow> bool" where
  "truthy v = (case v of
       JUndefined \<Rightarrow> False
     | JNull \<Rightarrow> False
     | JBool b \<Rightarrow> b
     | JNum x \<Rightarrow> x \<noteq> 0
     | JStr s \<Rightarrow> s \<noteq> []
     | JArr _ \<Rightarrow> True
     | JObj _ \<Rightarrow> True)"

text \<open>
  White space is what \<open>String.prototype.trim\<close> and \<open>parseInt\<close> strip: the code points
  \<open>WhiteSpace\<close> and \<open>LineTerminator\<close> of the language, here by their UTF-8
  encodings of one byte (U+0009 to U+000D, U+0020), two bytes (U+00A0) and three bytes
  (U+1680, U+2000 to U+200A, U+2028, U+2029, U+202F, U+205F, U+3000, U+FEFF).
\<close>

definition ws1 :: "char \<Rightarrow> bool" where
  "ws1 a = (let x = (of_char a :: nat) in (9 \<le> x \<and> x \<le> 13) \<or> x = 32)"

definition ws2 :: "char \<Rightarrow> char \<Rightarrow> bool" where
  "ws2 a b = ((of_char a :: nat) = 0xC2 \<and> (of_char b :: nat) = 0xA0)"

definition ws3 :: "char \<Rightarrow> char \<Rightarrow> char \<Rightarrow> bool" where
  "ws3 a b c =
     (let x = (of_char a :: nat); y = (of_char b :: nat); z = (of_char c :: nat)
      in (x = 0xE1 \<and> y = 0x9A \<and> z = 0x80) \<or>
         (x = 0xE2 \<and> y = 0x80 \<and> ((0x80 \<le> z \<and> z \<le> 0x8A) \<or> z = 0xA8 \<or> z = 0xA9 \<or> z = 0xAF)) \<or>
         (x = 0xE2 \<and> y = 0x81 \<and> z = 0x9F) \<or>
         (x = 0xE3 \<and> y = 0x80 \<and> z = 0x80) \<or>
         (x = 0xEF \<and> y = 0xBB \<and> z = 0xBF))"

fun trimStart :: "string \<Rightarrow> string" where
  "trimStart (a # b # c # s) =
     (if ws1 a then trimStart (b # c # s)
      else if ws2 a b then trimStart (c # s)
      else if ws3 a b c then trimStart s
      else a # b # c # s)"
| "trimStart [a, b] = (if ws1 a then trimStart [b] else if ws2 a b then [] else [a, b])"
| "trimStart [a] = (if ws1 a then [] else [a])"
| "trimStart [] = []"

text \<open>\<open>trimEnd\<close> on the reversed string: the last byte comes first.\<close>

fun trimEnd_rev :: "string \<Rightarrow> string" where
  "trimEnd_rev (c # b # a # s) =
     (if ws1 c then trimEnd_rev (b # a # s)
      else if ws2 b c then trimEnd_rev (a # s)
      else if ws3 a b c then trimEnd_rev s
      else c # b # a # s)"
| "trimEnd_rev [b, a] = (if ws1 b then trimEnd_rev [a] else if ws2 a b then [] else [b, a])"
| "trimEnd_rev [a] = (if ws1 a then [] else [a])"
| "trimEnd_rev [] = []"

definition trim :: "string \<Rightarrow> string" where
  "trim s = rev (trimEnd_rev (rev (trimStart s)))"

text \<open>
  \<open>String.prototype.toLowerCase\<close> on the ASCII letters. The result is only compared
  with \<open>'true'\<close>, and no character outside ASCII lower-cases to one of its letters.
\<close>

definition lower_char :: "char \<Rightarrow> char" where
  "lower_char c = (let n = (of_char c :: nat) in
     if 65 \<le> n \<and> n \<le> 90 then char_of (n + 32) else c)"

definition toLowerCase :: "string \<Rightarrow> string" where
  "toLowerCase s = map lower_char s"

definition is_digit :: "char \<Rightarrow> bool" where
  "is_digit c = (let n = (of_char c :: nat) in 48 \<le> n \<and> n \<le> 57)"

definition digits_value :: "string \<Rightarrow> nat" where
  "digits_value ds = foldl (\<lambda>acc c. 10 * acc + ((of_char c :: nat) - 48)) 0 ds"

definition hex_digit :: "char \<Rightarrow> nat option" where
  "hex_digit c = (let n = (of_char c :: nat) in
     if 48 \<le> n \<and> n \<le> 57 then Some (n - 48)
     else if 65 \<le> n \<and> n \<le> 70 then Some (n - 55)
     else if 97 \<le> n \<and> n \<le> 102 then Some (n - 87)
     else None)"

definition hex_value :: "string \<Rightarrow> nat" where
  "hex_value hs = foldl (\<lambda>acc c. 16 * acc + (case hex_digit c of None \<Rightarrow> 0 | Some d \<Rightarrow> d)) 0 hs"

text \<open>
  \<open>parseInt\<close> without a radix: leading white space, an optional sign, then the longest
  prefix of hexadecimal digits after \<open>0x\<close> or of decimal digits otherwise; \<open>None\<close> is
  \<open>NaN\<close>.
\<close>

definition parseInt :: "string \<Rightarrow> int option" where
  "parseInt s =
     (let t = trimStart s;
          neg = (case t of [] \<Rightarrow> False | c # _ \<Rightarrow> c = CHR ''-'');
          u = (case t of [] \<Rightarrow> [] | c # r \<Rightarrow> if c = CHR ''-'' \<or> c = CHR ''+'' then r else t);
          hex = (case u of
                   c # x # _ \<Rightarrow> c = CHR ''0'' \<and> (x = CHR ''x'' \<or> x = CHR ''X'')
                 | _ \<Rightarrow> False);
          ds = (if hex then takeWhile (\<lambda>c. hex_digit c \<noteq> None) (drop 2 u) else takeWhile is_digit u);
          n = (if hex then hex_value ds else digits_value ds)
      in if ds = [] then None else Some (if neg then - int n else int n))"

text \<open>\<open>s.includes(c)\<close>, \<open>s.indexOf(c)\<close> (\<open>-1\<close> when absent) and \<open>s.substring(a, b)\<close>
  (both arguments clamped to the string, and swapped when \<open>a > b\<close>).\<close>

definition js_includes :: "string \<Rightarrow> char \<Rightarrow> bool" where
  "js_includes s c = (c \<in> set s)"

definition indexOf :: "string \<Rightarrow> char \<Rightarrow> int" where
  "indexOf s c = (if c \<in> set s then int (length (takeWhile (\<lambda>x. x \<noteq> c) s)) else - 1)"

definition substring :: "string \<Rightarrow> int \<Rightarrow> int \<Rightarrow> string" where
  "substring s a b =
     (let n = int (length s);
          a' = max 0 (min n a);
          b' = max 0 (min n b);
          lo = min a' b';
          hi = max a' b'
      in take (nat (hi - lo)) (drop (nat lo) s))"

text \<open>\<open>s.split(sep)\<close> for a one-character separator; the result is never empty.\<close>

fun js_split :: "char \<Rightarrow> string \<Rightarrow> string list" where
  "js_split sep [] = [[]]"
| "js_split sep (c # cs) =
     (if c = sep then [] # js_split sep cs
      else (case js_split sep cs of [] \<Rightarrow> [[c]] | p # ps \<Rightarrow> (c # p) # ps))"

text \<open>
  Own properties. A property name is an array index when it is the canonical decimal
  form of a number. \<open>hasOwnProperty\<close> is looked up on the value itself: an object
  decoded from JSON that has an own key \<open>hasOwnProperty\<close> holds data there, not a
  function, and the call throws. Reading a property of \<open>null\<close> or \<open>undefined\<close>
  throws. The extractor only tests with \<open>Array.isArray\<close> what it reads without
  \<open>hasOwnProperty\<close>. The members inherited from the prototypes are functions or plain
  objects, which fail this test as \<open>undefined\<close> does, and are read as \<open>undefined\<close>;
  the one exception is \<open>__proto__\<close> of an array, which is \<open>Array.prototype\<close>, an
  array with no element. What is read from a string is never an array either; its
  length and characters are counted in bytes here, and the code never asks a string for
  them.
\<close>

definition array_index :: "string \<Rightarrow> nat option" where
  "array_index k =
     (if k \<noteq> [] \<and> list_all is_digit k \<and> (k = ''0'' \<or> hd k \<noteq> CHR ''0'')
      then Some (digits_value k) else None)"

definition get_prop :: "jsval \<Rightarrow> string \<Rightarrow> exn + jsval" where
  "get_prop v k = (case v of
       JUndefined \<Rightarrow> Inl TypeError
     | JNull \<Rightarrow> Inl TypeError
     | JBool _ \<Rightarrow> Inr JUndefined
     | JNum _ \<Rightarrow> Inr JUndefined
     | JStr s \<Rightarrow> Inr (if k = ''length'' then JNum (real (length s))
                      else (case array_index k of
                              None \<Rightarrow> JUndefined
                            | Some i \<Rightarrow> if i < length s then JStr [s ! i] else JUndefined))
     | JArr xs \<Rightarrow> Inr (if k = ''length'' then JNum (real (length xs))
                       else if k = ''__proto__'' then JArr []
                       else (case array_index k of
                               None \<Rightarrow> JUndefined
                             | Some i \<Rightarrow> if i < length xs then xs ! i else JUndefined))
     | JObj kvs \<Rightarrow> Inr (case map_of kvs k of None \<Rightarrow> JUndefined | Some x \<Rightarrow> x))"

definition hasOwnProperty :: "jsval \<Rightarrow> string \<Rightarrow> exn + bool" where
  "hasOwnProperty v k = (case v of
       JUndefined \<Rightarrow> Inl TypeError
     | JNull \<Rightarrow> Inl TypeError
     | JBool _ \<Rightarrow> Inr False
     | JNum _ \<Rightarrow> Inr False
     | JStr s \<Rightarrow> Inr (k = ''length'' \<or> (case array_index k of None \<Rightarrow> False | Some i \<Rightarrow> i < length s))
     | JArr xs \<Rightarrow> Inr (k = ''length'' \<or> (case array_index k of None \<Rightarrow> False | Some i \<Rightarrow> i < length xs))
     | JObj kvs \<Rightarrow> if map_of kvs ''hasOwnProperty'' \<noteq> None then Inl TypeError
                    else Inr (map_of kvs k \<noteq> None))"

text \<open>
  The conversion of a value to a string, as in a template literal, throws when neither
  \<open>toString\<close> nor \<open>valueOf\<close> yields a primitive. For a value decoded from JSON this is
  an object with an own key \<open>toString\<close> (it holds data, and the inherited \<open>valueOf\<close>
  returns the object), and an array that has such a value among its elements, which
  \<open>join\<close> converts one by one.
\<close>

fun toString_throws :: "jsval \<Rightarrow> bool" where
  "toString_throws (JObj kvs) = (map_of kvs ''toString'' \<noteq> None)"
| "toString_throws (JArr xs) = list_ex toString_throws xs"
| "toString_throws _ = False"

text \<open>\<open>typeof v === 'object'\<close> holds of objects, arrays and \<open>null\<close>.\<close>

definition typeof_object :: "jsval \<Rightarrow> bool" where
  "typeof_object v = (case v of JNull \<Rightarrow> True | JArr _ \<Rightarrow> True | JObj _ \<Rightarrow> True | _ \<Rightarrow> False)"

text \<open>\<open>xs[index]\<close> for a number \<open>index\<close>: \<open>undefined\<close> outside the array and for \<open>NaN\<close>.\<close>

definition array_get :: "jsval list \<Rightarrow> int option \<Rightarrow> jsval" where
  "array_get xs index = (case index of
       None \<Rightarrow> JUndefined
     | Some i \<Rightarrow> if 0 \<le> i \<and> i < int (length xs) then xs ! nat i else JUndefined)"

text \<open>
  Base64 of \<open>Buffer.from(s).toString('base64')\<close>. A \<open>char\<close> is a byte, so every
  index into the alphabet below is less than 64.
\<close>

definition b64_char :: "nat \<Rightarrow> char" where
  "b64_char n =
     ''ABCDEFGHIJKLMNOPQRSTUVWXYZabcdefghijklmnopqrstuvwxyz0123456789+/'' ! n"

fun b64_bytes :: "nat list \<Rightarrow> string" where
  "b64_bytes [] = []"
| "b64_bytes [a] =
     [b64_char (a div 4), b64_char ((a mod 4) * 16), CHR ''='', CHR ''='']"
| "b64_bytes [a, b] =
     [b64_char (a div 4), b64_char ((a mod 4) * 16 + b div 16), b64_char ((b mod 16) * 4), CHR ''='']"
| "b64_bytes (a # b # c # rest) =
     [b64_char (a div 4), b64_char ((a mod 4) * 16 + b div 16),
      b64_char ((b mod 16) * 4 + c div 64), b64_char (c mod 64)] @ b64_bytes rest"

definition base64 :: "string \<Rightarrow> string" where
  "base64 s = b64_bytes (map of_char s)"

subsection \<open>The path extractor and the path validator\<close>

text \<open>
  The body of the \<open>for (const part of parts)\<close> loop of \<open>extractValueFromJSON\<close>.
  \<open>Inl\<close> is an exception thrown inside the \<open>try\<close>; \<open>Inr\<close> is the value the function
  returns, \<open>return null\<close> inside the loop included.
\<close>

fun extract_parts :: "jsval \<Rightarrow> string list \<Rightarrow> exn + jsval" where
  "extract_parts current [] = Inr current"
| "extract_parts current (part # parts) =
     (if js_includes part CHR ''['' \<and> js_includes part CHR '']'' then
        (let arrayName = substring part 0 (indexOf part CHR ''['');
             index = parseInt (substring part (indexOf part CHR ''['' + 1) (indexOf part CHR '']''))
         in case get_prop current arrayName of
              Inl e \<Rightarrow> Inl e
            | Inr a \<Rightarrow> (case a of
                          JArr xs \<Rightarrow> extract_parts (array_get xs index) parts
                        | _ \<Rightarrow> Inr JNull))
      else if truthy current \<and> typeof_object current then
        (case hasOwnProperty current part of
           Inl e \<Rightarrow> Inl e
         | Inr has \<Rightarrow>
             if has then
               (case get_prop current part of
                  Inl e \<Rightarrow> Inl e
                | Inr x \<Rightarrow> extract_parts x parts)
             else Inr JNull)
      else Inr JNull)"

definition extractValueFromJSON :: "jsval \<Rightarrow> string \<Rightarrow> jsval" where
  "extractValueFromJSON jsonObject jsonPath =
     (if jsonPath = [] \<or> \<not> truthy jsonObject then JNull
      else (case extract_parts jsonObject (js_split CHR ''.'' jsonPath) of
              Inl _ \<Rightarrow> JNull
            | Inr v \<Rightarrow> v))"

text \<open>
  \<open>validateJSONPath\<close> tests the path against
  \<^verbatim>\<open>^[a-zA-Z_][a-zA-Z0-9_]*(\.[a-zA-Z_][a-zA-Z0-9_]*|\[\d+\])*$\<close>.
  The regular expression is run as its automaton: \<open>AtName\<close> expects the first
  character of a name, \<open>InName\<close> is inside a name, \<open>AtDigits\<close> is after \<open>[\<close>,
  \<open>InDigits\<close> is inside the digits and \<open>AfterIndex\<close> is after \<open>]\<close>.
\<close>

definition is_name_start :: "char \<Rightarrow> bool" where
  "is_name_start c = (let n = (of_char c :: nat) in
     (65 \<le> n \<and> n \<le> 90) \<or> (97 \<le> n \<and> n \<le> 122) \<or> n = 95)"

definition is_name_char :: "char \<Rightarrow> bool" where
  "is_name_char c = (is_name_start c \<or> is_digit c)"

datatype path_state = AtName | InName | AtDigits | InDigits | AfterIndex

fun path_matches :: "path_state \<Rightarrow> string \<Rightarrow> bool" where
  "path_matches AtName [] = False"
| "path_matches AtName (c # cs) = (is_name_start c \<and> path_matches InName cs)"
| "path_matches InName [] = True"
| "path_matches InName (c # cs) =
     (if is_name_char c then path_matches InName cs
      else if c = CHR ''.'' then path_matches AtName cs
      else if c = CHR ''['' then path_matches AtDigits cs
      else False)"
| "path_matches AtDigits [] = False"
| "path_matches AtDigits (c # cs) = (is_digit c \<and> path_matches InDigits cs)"
| "path_matches InDigits [] = False"
| "path_matches InDigits (c # cs) =
     (if is_digit c then path_matches InDigits cs
      else c = CHR '']'' \<and> path_matches AfterIndex cs)"
| "path_matches AfterIndex [] = True"
| "path_matches AfterIndex (c # cs) =
     (if c = CHR ''.'' then path_matches AtName cs
      else if c = CHR ''['' then path_matches AtDigits cs
      else False)"

definition validateJSONPath :: "string \<Rightarrow> bool" where
  "validateJSONPath jsonPath = (jsonPath = [] \<or> path_matches AtName jsonPath)"

subsection \<open>The data model\<close>

datatype status = Offline | Online | Warning

record sensor =
  s_id :: string
  s_name :: string
  s_topic :: string
  isJsonPayload :: bool
  jsonPath :: string
  jsonFormat :: string
  s_showReceivedTimestamp :: bool
  mqttQos :: nat
  minValue :: "real option"
  maxValue :: "real option"
  s_value :: real
  s_status :: status
  s_lastUpdate :: time
  s_receivedTimestamp :: "time option"

record reservoir =
  r_id :: string
  r_name :: string
  r_topic :: string
  pumpTopic :: "string option"
  fillTopic :: "string option"
  modeTopic :: "string option"
  isJsonPayloadLevel :: bool
  jsonPathLevel :: string
  jsonFormatLevel :: string
  isJsonPayloadPump :: bool
  jsonPathPump :: string
  jsonFormatPump :: string
  isJsonPayloadMode :: bool
  jsonPathMode :: string
  jsonFormatMode :: string
  r_showReceivedTimestamp :: bool
  lowThreshold :: real
  currentLevel :: real
  pumpStatus :: bool
  isAutoMode :: bool
  r_lastUpdate :: time
  r_receivedTimestamp :: "time option"

text \<open>
  A threshold of a sensor that is \<open>null\<close> or was never set is \<open>None\<close>: the test
  \<open>sensor.minValue !== null && value < sensor.minValue\<close> is false for both. A topic of
  a reservoir that was never set is \<open>None\<close>. The fields that only serve the display
  (type, unit, colour, capacity) are left out.

  A history entry carries \<open>value\<close> (sensor) or \<open>level\<close> (reservoir), and the
  reception time only when the entity shows it.
\<close>

datatype reading = SensorValue real | ReservoirLevel real

record point =
  timestamp :: time
  reading :: reading
  p_receivedTimestamp :: "time option"

type_synonym history = "string \<rightharpoonup> point list"

datatype alert_type = low_threshold | high_threshold | low_level

datatype event =
    Alert alert_type string real real
  | sensor_realtime_update string real status time "time option"
  | reservoir_realtime_update string real time "time option"
  | reservoir_pump_changed string bool time
  | reservoir_mode_changed string bool string time

fun is_alert :: "event \<Rightarrow> bool" where
  "is_alert (Alert _ _ _ _) = True"
| "is_alert _ = False"

subsection \<open>The bounded history\<close>

text \<open>
  \<open>stationData.sensorHistory\<close> and \<open>stationData.reservoirHistory\<close> are plain
  objects: the map holds their own properties, and reading \<open>history[id]\<close> for an
  \<open>id\<close> that is no own property but names a member of \<open>Object.prototype\<close> yields
  that member, a function or an object.

  Both handlers end with \<open>if (!history[id]) history[id] = []; history[id].push(entry);
  if (history[id].length > 1000) history[id].shift()\<close>. For an inherited member the
  guard creates nothing and \<open>.push\<close> is not a function: the call throws.
\<close>

definition object_members :: "string list" where
  "object_members =
     [''constructor'', ''__defineGetter__'', ''__defineSetter__'', ''hasOwnProperty'',
      ''__lookupGetter__'', ''__lookupSetter__'', ''isPrototypeOf'', ''propertyIsEnumerable'',
      ''toString'', ''valueOf'', ''__proto__'', ''toLocaleString'']"

definition inherited :: "history \<Rightarrow> string \<Rightarrow> bool" where
  "inherited h k = (h k = None \<and> k \<in> set object_members)"

definition push_history :: "history \<Rightarrow> string \<Rightarrow> point \<Rightarrow> exn + history" where
  "push_history h k p =
     (if inherited h k then Inl TypeError
      else (let series = (case h k of None \<Rightarrow> [] | Some ps \<Rightarrow> ps);
                pushed = series @ [p]
            in Inr (h(k \<mapsto> (if length pushed > 1000 then tl pushed else pushed)))))"

subsection \<open>The state updaters\<close>

definition stamp :: "time option \<Rightarrow> bool \<Rightarrow> time option" where
  "stamp receivedTimestamp shown =
     (case receivedTimestamp of None \<Rightarrow> None | Some t \<Rightarrow> if shown then Some t else None)"

text \<open>
  The handlers return the entity, the history, the events emitted and the exception, if
  any, that ended them: the push throws after the entity is updated and the alert is
  emitted, and before the update event.
\<close>

definition handleSensorData ::
  "time \<Rightarrow> sensor \<Rightarrow> history \<Rightarrow> real \<Rightarrow> time option \<Rightarrow>
   sensor \<times> history \<times> event list \<times> exn option" where
  "handleSensorData now sensor h v receivedTimestamp =
     (let s1 = sensor\<lparr>s_value := v, s_lastUpdate := now, s_status := Online\<rparr>;
          shown = stamp receivedTimestamp (s_showReceivedTimestamp sensor);
          s2 = (case shown of None \<Rightarrow> s1 | Some t \<Rightarrow> s1\<lparr>s_receivedTimestamp := Some t\<rparr>);
          over = (case maxValue sensor of
                    None \<Rightarrow> None
                  | Some hi \<Rightarrow> if v > hi then Some (high_threshold, hi) else None);
          breach = (case minValue sensor of
                      None \<Rightarrow> over
                    | Some lo \<Rightarrow> if v < lo then Some (low_threshold, lo) else over);
          s3 = (case breach of None \<Rightarrow> s2 | Some _ \<Rightarrow> s2\<lparr>s_status := Warning\<rparr>);
          alerts = (case breach of
                      None \<Rightarrow> []
                    | Some (type, threshold) \<Rightarrow> [Alert type (s_name sensor) v threshold]);
          historyEntry = \<lparr>timestamp = now, reading = SensorValue v, p_receivedTimestamp = shown\<rparr>
      in case push_history h (s_id sensor) historyEntry of
           Inl e \<Rightarrow> (s3, h, alerts, Some e)
         | Inr h' \<Rightarrow>
             (s3, h', alerts @ [sensor_realtime_update (s_id sensor) v (s_status s3) now shown],
              None))"

definition handleReservoirLevelData ::
  "time \<Rightarrow> reservoir \<Rightarrow> history \<Rightarrow> real \<Rightarrow> time option \<Rightarrow>
   reservoir \<times> history \<times> event list \<times> exn option" where
  "handleReservoirLevelData now reservoir h level receivedTimestamp =
     (let r1 = reservoir\<lparr>currentLevel := max 0 (min 100 level), r_lastUpdate := now\<rparr>;
          shown = stamp receivedTimestamp (r_showReceivedTimestamp reservoir);
          r2 = (case shown of None \<Rightarrow> r1 | Some t \<Rightarrow> r1\<lparr>r_receivedTimestamp := Some t\<rparr>);
          alerts =
            (if currentLevel r2 \<le> lowThreshold r2
             then [Alert low_level (r_name r2) (currentLevel r2) (lowThreshold r2)] else []);
          historyEntry = \<lparr>timestamp = now, reading = ReservoirLevel (currentLevel r2), p_receivedTimestamp = shown\<rparr>
      in case push_history h (r_id r2) historyEntry of
           Inl e \<Rightarrow> (r2, h, alerts, Some e)
         | Inr h' \<Rightarrow>
             (r2, h', alerts @ [reservoir_realtime_update (r_id r2) (currentLevel r2) now shown],
              None))"

definition handleReservoirPumpData ::
  "time \<Rightarrow> reservoir \<Rightarrow> bool \<Rightarrow> time option \<Rightarrow> reservoir \<times> event list" where
  "handleReservoirPumpData now reservoir pump receivedTimestamp =
     (let r1 = reservoir\<lparr>pumpStatus := pump, r_lastUpdate := now\<rparr>;
          r2 = (case stamp receivedTimestamp (r_showReceivedTimestamp reservoir) of
                  None \<Rightarrow> r1 | Some t \<Rightarrow> r1\<lparr>r_receivedTimestamp := Some t\<rparr>)
      in (r2, [reservoir_pump_changed (r_id r2) (pumpStatus r2) now]))"

definition handleReservoirModeData ::
  "time \<Rightarrow> reservoir \<Rightarrow> bool \<Rightarrow> time option \<Rightarrow> reservoir \<times> event list" where
  "handleReservoirModeData now reservoir auto receivedTimestamp =
     (let r1 = reservoir\<lparr>isAutoMode := auto, r_lastUpdate := now\<rparr>;
          r2 = (case stamp receivedTimestamp (r_showReceivedTimestamp reservoir) of
                  None \<Rightarrow> r1 | Some t \<Rightarrow> r1\<lparr>r_receivedTimestamp := Some t\<rparr>)
      in (r2, [reservoir_mode_changed (r_id r2) (isAutoMode r2)
                 (if auto then ''auto'' else ''manual'') now]))"

subsection \<open>Envelope shapes\<close>

fun has_all :: "jsval \<Rightarrow> string list \<Rightarrow> exn + bool" where
  "has_all v [] = Inr True"
| "has_all v (k # ks) =
     (case hasOwnProperty v k of
        Inl e \<Rightarrow> Inl e
      | Inr has \<Rightarrow> if has then has_all v ks else Inr False)"

definition isChirpStackReceiveFormat :: "jsval \<Rightarrow> exn + bool" where
  "isChirpStackReceiveFormat jsonData =
     (if truthy jsonData
      then has_all jsonData [''applicationID'', ''deviceName'', ''devEUI'', ''object'']
      else Inr False)"

definition isChirpStackSendFormat :: "jsval \<Rightarrow> exn + bool" where
  "isChirpStackSendFormat jsonData =
     (if truthy jsonData
      then has_all jsonData [''confirmed'', ''data'', ''fPort'']
      else Inr False)"

text \<open>
  The block that sets \<open>actualFormat\<close>. Its result is not read afterwards; the block
  matters only because a shape test may throw inside the \<open>try\<close>.
\<close>

definition actualFormat :: "string \<Rightarrow> jsval \<Rightarrow> exn + string" where
  "actualFormat format jsonData =
     (if format = [] \<or> format = ''auto'' then
        (case isChirpStackReceiveFormat jsonData of
           Inl e \<Rightarrow> Inl e
         | Inr recv \<Rightarrow>
             if recv then Inr ''chirpstack_receive''
             else (case isChirpStackSendFormat jsonData of
                     Inl e \<Rightarrow> Inl e
                   | Inr send \<Rightarrow> if send then Inr ''chirpstack_send'' else Inr ''simple''))
      else Inr format)"

subsection \<open>The command encoder\<close>

text \<open>
  \<open>JSON.stringify\<close>, \<open>JSON.parse\<close> and \<open>parseFloat\<close> are builtins of the runtime; the
  functions that call them take them as the arguments \<open>JSON_stringify\<close>,
  \<open>JSON_parse\<close> (\<open>None\<close> when it throws) and \<open>parseFloat\<close> (\<open>None\<close> for \<open>NaN\<close>).
\<close>

definition createChirpStackSendPayload ::
  "(jsval \<Rightarrow> string) \<Rightarrow> string \<Rightarrow> bool \<Rightarrow> real \<Rightarrow> string" where
  "createChirpStackSendPayload JSON_stringify data confirmed fPort =
     JSON_stringify (JObj [(''confirmed'', JBool confirmed),
                           (''data'', JStr (base64 data)),
                           (''fPort'', JNum fPort)])"

text \<open>The payload that \<open>POST /api/reservoirs/:id/pump\<close> and \<open>pump_toggle\<close> publish.\<close>

definition pump_payload :: "(jsval \<Rightarrow> string) \<Rightarrow> reservoir \<Rightarrow> bool \<Rightarrow> string" where
  "pump_payload JSON_stringify reservoir newStatus =
     (if isJsonPayloadPump reservoir then
        (if jsonFormatPump reservoir = ''chirpstack_send''
         then createChirpStackSendPayload JSON_stringify (if newStatus then ''1'' else ''0'') True 1
         else JSON_stringify (JObj [(''value'', JStr (if newStatus then ''1'' else ''0''))]))
      else (if newStatus then ''1'' else ''0''))"

subsection \<open>Ingestion of one message\<close>

datatype channel = Sensor | Level | Pump | Fill | Mode

text \<open>\<open>topicConfig[topicType]\<close>: there is no entry for the fill topic.\<close>

definition topicConfig :: "reservoir \<Rightarrow> channel \<Rightarrow> (bool \<times> string \<times> string) option" where
  "topicConfig reservoir topicType = (case topicType of
       Level \<Rightarrow> Some (isJsonPayloadLevel reservoir, jsonPathLevel reservoir, jsonFormatLevel reservoir)
     | Pump \<Rightarrow> Some (isJsonPayloadPump reservoir, jsonPathPump reservoir, jsonFormatPump reservoir)
     | Mode \<Rightarrow> Some (isJsonPayloadMode reservoir, jsonPathMode reservoir, jsonFormatMode reservoir)
     | _ \<Rightarrow> None)"

text \<open>
  The first half of \<open>handleReservoirTopicMessage\<close>: the value extracted from the
  message, \<open>None\<close> when the function returns before the \<open>switch\<close>. Inside the
  \<open>try\<close>, the extracted value is logged through a template literal before it is
  tested: a value whose conversion to a string throws is dropped by the \<open>catch\<close>.
\<close>

definition reservoir_extract ::
  "(string \<Rightarrow> jsval option) \<Rightarrow> bool \<times> string \<times> string \<Rightarrow> string \<Rightarrow> jsval option" where
  "reservoir_extract JSON_parse config messageStr = (case config of (isJson, path, format) \<Rightarrow>
     if isJson then
       (case JSON_parse messageStr of
          None \<Rightarrow> None
        | Some jsonData \<Rightarrow>
            (case actualFormat format jsonData of
               Inl _ \<Rightarrow> None
             | Inr _ \<Rightarrow>
                 (let extractedValue = extractValueFromJSON jsonData path
                  in if toString_throws extractedValue then None
                     else if extractedValue = JNull \<or> extractedValue = JUndefined then None
                     else Some extractedValue)))
     else Some (JStr (trim messageStr)))"

definition handleReservoirTopicMessage ::
  "(string \<Rightarrow> jsval option) \<Rightarrow> (jsval \<Rightarrow> real option) \<Rightarrow> time \<Rightarrow>
   reservoir \<Rightarrow> history \<Rightarrow> string \<Rightarrow> channel \<Rightarrow> time option \<Rightarrow>
   reservoir \<times> history \<times> event list \<times> exn option" where
  "handleReservoirTopicMessage JSON_parse parseFloat now reservoir h messageStr topicType receivedTimestamp =
     (case topicConfig reservoir topicType of
        None \<Rightarrow> (reservoir, h, [], None)
      | Some config \<Rightarrow>
          (case reservoir_extract JSON_parse config messageStr of
             None \<Rightarrow> (reservoir, h, [], None)
           | Some extractedValue \<Rightarrow>
               (case topicType of
                  Level \<Rightarrow>
                    (case parseFloat extractedValue of
                       None \<Rightarrow> (reservoir, h, [], None)
                     | Some levelValue \<Rightarrow>
                         handleReservoirLevelData now reservoir h levelValue receivedTimestamp)
                | Pump \<Rightarrow>
                    (let pump = (case extractedValue of
                                   JStr s \<Rightarrow> s = ''1'' \<or> toLowerCase s = ''true''
                                 | JNum x \<Rightarrow> x = 1
                                 | _ \<Rightarrow> truthy extractedValue)
                     in case handleReservoirPumpData now reservoir pump receivedTimestamp of
                          (r, evs) \<Rightarrow> (r, h, evs, None))
                | Mode \<Rightarrow>
                    (let auto = (extractedValue = JStr ''auto'' \<or> extractedValue = JStr ''automatic'')
                     in case handleReservoirModeData now reservoir auto receivedTimestamp of
                          (r, evs) \<Rightarrow> (r, h, evs, None))
                | _ \<Rightarrow> (reservoir, h, [], None))))"

text \<open>
  The body of \<open>relatedSensors.forEach\<close> up to the call of \<open>handleSensorData\<close>: the
  numeric value of the message for one sensor, \<open>None\<close> when the callback returns early.
\<close>

definition sensor_extract ::
  "(string \<Rightarrow> jsval option) \<Rightarrow> (jsval \<Rightarrow> real option) \<Rightarrow> sensor \<Rightarrow> string \<Rightarrow> real option" where
  "sensor_extract JSON_parse parseFloat sensor messageStr =
     (if isJsonPayload sensor then
        (case JSON_parse messageStr of
           None \<Rightarrow> None
         | Some jsonData \<Rightarrow>
             (case actualFormat (jsonFormat sensor) jsonData of
                Inl _ \<Rightarrow> None
              | Inr _ \<Rightarrow>
                  (let extractedValue = extractValueFromJSON jsonData (jsonPath sensor)
                   in if toString_throws extractedValue then None
                      else if extractedValue = JNull \<or> extractedValue = JUndefined then None
                      else (case extractedValue of
                              JStr s \<Rightarrow> parseFloat (JStr s)
                            | JNum x \<Rightarrow> Some x
                            | _ \<Rightarrow> None))))
      else parseFloat (JStr messageStr))"

subsection \<open>The station and the routing of a message\<close>

record station =
  sensors :: "sensor list"
  reservoirs :: "reservoir list"
  sensorHistory :: history
  reservoirHistory :: history

text \<open>
  An entity is referred to by its position in \<open>stationData.sensors\<close> or
  \<open>stationData.reservoirs\<close>. \<open>resolve\<close> lists the handler calls that the
  \<open>message\<close> callback has to make for a topic, in their order: the sensors when
  \<open>relatedSensors\<close> is not empty (the callback then returns), and otherwise, for each
  related reservoir, the first branch of the \<open>if / else if\<close> chain over its level, pump
  and mode topics. The callback makes these calls one after the other; a call that
  throws ends the callback, and the calls after it are not made.
\<close>

datatype entity = SensorRef nat | ReservoirRef nat

definition relatedSensors :: "station \<Rightarrow> string \<Rightarrow> nat list" where
  "relatedSensors st topic =
     filter (\<lambda>i. s_topic (sensors st ! i) = topic) [0..<length (sensors st)]"

definition relatedReservoirs :: "station \<Rightarrow> string \<Rightarrow> nat list" where
  "relatedReservoirs st topic =
     filter (\<lambda>j. let r = reservoirs st ! j
                 in r_topic r = topic \<or> pumpTopic r = Some topic \<or>
                    fillTopic r = Some topic \<or> modeTopic r = Some topic)
            [0..<length (reservoirs st)]"

definition reservoir_branch :: "reservoir \<Rightarrow> string \<Rightarrow> channel option" where
  "reservoir_branch r topic =
     (if r_topic r = topic then Some Level
      else if pumpTopic r = Some topic then Some Pump
      else if modeTopic r = Some topic then Some Mode
      else None)"

definition resolve :: "station \<Rightarrow> string \<Rightarrow> (entity \<times> channel) list" where
  "resolve st topic =
     (if relatedSensors st topic \<noteq> [] then
        map (\<lambda>i. (SensorRef i, Sensor)) (relatedSensors st topic)
      else
        concat (map (\<lambda>j. case reservoir_branch (reservoirs st ! j) topic of
                            None \<Rightarrow> []
                          | Some ch \<Rightarrow> [(ReservoirRef j, ch)])
                    (relatedReservoirs st topic)))"

text \<open>One handler call; the events emitted so far are carried along.\<close>

definition deliver ::
  "(string \<Rightarrow> jsval option) \<Rightarrow> (jsval \<Rightarrow> real option) \<Rightarrow> time \<Rightarrow> string \<Rightarrow>
   station \<times> event list \<Rightarrow> entity \<times> channel \<Rightarrow> (station \<times> event list) \<times> exn option" where
  "deliver JSON_parse parseFloat now messageStr acc target = (case acc of (st, out) \<Rightarrow>
     (case target of
        (SensorRef i, _) \<Rightarrow>
          (case sensor_extract JSON_parse parseFloat (sensors st ! i) messageStr of
             None \<Rightarrow> ((st, out), None)
           | Some v \<Rightarrow>
               (case handleSensorData now (sensors st ! i) (sensorHistory st) v (Some now) of
                  (s, h, evs, thrown) \<Rightarrow>
                    ((st\<lparr>sensors := (sensors st)[i := s], sensorHistory := h\<rparr>, out @ evs),
                     thrown)))
      | (ReservoirRef j, ch) \<Rightarrow>
          (case handleReservoirTopicMessage JSON_parse parseFloat now (reservoirs st ! j)
                  (reservoirHistory st) messageStr ch (Some now) of
             (r, h, evs, thrown) \<Rightarrow>
               ((st\<lparr>reservoirs := (reservoirs st)[j := r], reservoirHistory := h\<rparr>, out @ evs),
                thrown))))"

fun deliver_all ::
  "(string \<Rightarrow> jsval option) \<Rightarrow> (jsval \<Rightarrow> real option) \<Rightarrow> time \<Rightarrow> string \<Rightarrow>
   station \<times> event list \<Rightarrow> (entity \<times> channel) list \<Rightarrow> station \<times> event list" where
  "deliver_all JSON_parse parseFloat now messageStr acc [] = acc"
| "deliver_all JSON_parse parseFloat now messageStr acc (target # targets) =
     (case deliver JSON_parse parseFloat now messageStr acc target of
        (acc', None) \<Rightarrow> deliver_all JSON_parse parseFloat now messageStr acc' targets
      | (acc', Some e) \<Rightarrow> acc')"

definition on_message ::
  "(string \<Rightarrow> jsval option) \<Rightarrow> (jsval \<Rightarrow> real option) \<Rightarrow> time \<Rightarrow>
   station \<Rightarrow> string \<Rightarrow> string \<Rightarrow> station \<times> event list" where
  "on_message JSON_parse parseFloat now st topic messageStr =
     deliver_all JSON_parse parseFloat now messageStr (st, []) (resolve st topic)"

subsection \<open>Registration of a sensor\<close>

text \<open>
  The request body of \<open>POST /api/sensors\<close>; a field the caller did not send is \<open>None\<close>.
  The body is spread after \<open>id\<close> and before the initial state, so it can set the
  identifier but not \<open>value\<close>, \<open>status\<close>, \<open>lastUpdate\<close> or \<open>receivedTimestamp\<close>.
  \<open>now_id\<close> is \<open>Date.now().toString()\<close>. \<open>new_sensor\<close> is the object literal
  \<open>const sensor = {...}\<close> of the handler. The guard
  \<open>if (!stationData.sensorHistory[sensor.id])\<close> creates the series only when the
  identifier is neither an own property of the history nor the name of an inherited
  member.
\<close>

record sensor_body =
  b_id :: "string option"
  b_name :: string
  b_topic :: string
  b_isJsonPayload :: "bool option"
  b_jsonPath :: "string option"
  b_jsonFormat :: "string option"
  b_showReceivedTimestamp :: "bool option"
  b_mqttQos :: "nat option"
  b_minValue :: "real option"
  b_maxValue :: "real option"

datatype http_error = BadRequest

definition new_sensor :: "time \<Rightarrow> string \<Rightarrow> sensor_body \<Rightarrow> sensor" where
  "new_sensor now now_id body =
     \<lparr>s_id = (case b_id body of None \<Rightarrow> now_id | Some i \<Rightarrow> i),
      s_name = b_name body,
      s_topic = b_topic body,
      isJsonPayload = (b_isJsonPayload body = Some True),
      jsonPath = (case b_jsonPath body of None \<Rightarrow> [] | Some p \<Rightarrow> p),
      jsonFormat = (case b_jsonFormat body of
                      None \<Rightarrow> ''chirpstack_receive''
                    | Some f \<Rightarrow> if f = [] then ''chirpstack_receive'' else f),
      s_showReceivedTimestamp = (b_showReceivedTimestamp body = Some True),
      mqttQos = (case b_mqttQos body of
                   None \<Rightarrow> 1
                 | Some q \<Rightarrow> if q = 0 then 1 else q),
      minValue = b_minValue body,
      maxValue = b_maxValue body,
      s_value = 0,
      s_status = Offline,
      s_lastUpdate = now,
      s_receivedTimestamp = None\<rparr>"

definition post_sensor ::
  "time \<Rightarrow> string \<Rightarrow> station \<Rightarrow> sensor_body \<Rightarrow> http_error + station \<times> sensor" where
  "post_sensor now now_id st body =
     (let isJson = (b_isJsonPayload body = Some True);
          path = (case b_jsonPath body of None \<Rightarrow> [] | Some p \<Rightarrow> p)
      in if isJson \<and> path \<noteq> [] \<and> \<not> validateJSONPath path then Inl BadRequest
         else
           (let sensor = new_sensor now now_id body;
                h = (case sensorHistory st (s_id sensor) of
                       None \<Rightarrow> if s_id sensor \<in> set object_members then sensorHistory st
                               else (sensorHistory st)(s_id sensor \<mapsto> [])
                     | Some _ \<Rightarrow> sensorHistory st)
            in Inr (st\<lparr>sensors := sensors st @ [sensor], sensorHistory := h\<rparr>, sensor)))"

subsection \<open>The history query\<close>







subsection \<open>Notions used in the statements\<close>

text \<open>The series stored for an entity, empty when there is none.\<close>

definition series :: "history \<Rightarrow> string \<Rightarrow> point list" where
  "series h k = (case h k of None \<Rightarrow> [] | Some ps \<Rightarrow> ps)"

definition bounded :: "history \<Rightarrow> bool" where
  "bounded h = (\<forall>k. length (series h k) \<le> 1000)"

definition station_bounded :: "station \<Rightarrow> bool" where
  "station_bounded st = (bounded (sensorHistory st) \<and> bounded (reservoirHistory st))"

text \<open>
  A run is a sequence of sensor registrations and inbound messages, each with the clock
  reading at its arrival; a registration that is refused leaves the station as it was.
\<close>

datatype operation = Message time string string | Register time string sensor_body

fun run ::
  "(string \<Rightarrow> jsval option) \<Rightarrow> (jsval \<Rightarrow> real option) \<Rightarrow> station \<Rightarrow> operation list \<Rightarrow> station" where
  "run JSON_parse parseFloat st [] = st"
| "run JSON_parse parseFloat st (Message now topic messageStr # rest) =
     run JSON_parse parseFloat (fst (on_message JSON_parse parseFloat now st topic messageStr)) rest"
| "run JSON_parse parseFloat st (Register now now_id body # rest) =
     run JSON_parse parseFloat
       (case post_sensor now now_id st body of Inl _ \<Rightarrow> st | Inr created \<Rightarrow> fst created) rest"

text \<open>The series after one more point: appended at the end, the oldest point dropped
  when the series already holds 1000 points.\<close>

definition appended :: "point list \<Rightarrow> point \<Rightarrow> point list" where
  "appended ps p = (if length ps < 1000 then ps @ [p] else tl ps @ [p])"

text \<open>An object with an own key \<open>hasOwnProperty\<close>, which hides the inherited method.\<close>

definition shadowed :: "jsval \<Rightarrow> bool" where
  "shadowed v = (case v of JObj kvs \<Rightarrow> map_of kvs ''hasOwnProperty'' \<noteq> None | _ \<Rightarrow> False)"

text \<open>
  The boolean that the \<open>pump\<close> case of \<open>handleReservoirTopicMessage\<close> computes from
  an extracted value, which is never \<open>null\<close> or \<open>undefined\<close> there.
\<close>

definition pump_of :: "jsval \<Rightarrow> bool" where
  "pump_of v = (case v of
       JStr s \<Rightarrow> s = ''1'' \<or> toLowerCase s = ''true''
     | JNum x \<Rightarrow> x = 1
     | JBool b \<Rightarrow> b
     | JArr _ \<Rightarrow> True
     | JObj _ \<Rightarrow> True
     | _ \<Rightarrow> False)"

text \<open>
  The fields of a sensor that decide what is extracted from a message for it and
  under which key its history is stored; \<open>handleSensorData\<close> does not change them.
\<close>

definition sensor_config :: "sensor \<Rightarrow> string \<times> bool \<times> string \<times> string" where
  "sensor_config s = (s_id s, isJsonPayload s, jsonPath s, jsonFormat s)"

text \<open>A message is ingested by a sensor when it is on the sensor's topic and yields a number.\<close>

definition ingests ::
  "(string \<Rightarrow> jsval option) \<Rightarrow> (jsval \<Rightarrow> real option) \<Rightarrow> sensor \<Rightarrow> string \<Rightarrow> string \<Rightarrow> bool" where
  "ingests JSON_parse parseFloat s topic messageStr =
     (s_topic s = topic \<and> sensor_extract JSON_parse parseFloat s messageStr \<noteq> None)"

text \<open>A target names a sensor of a list of \<open>n\<close> sensors.\<close>

definition valid_target :: "nat \<Rightarrow> entity \<times> channel \<Rightarrow> bool" where
  "valid_target n t = (case fst t of SensorRef i \<Rightarrow> i < n | ReservoirRef _ \<Rightarrow> True)"

text \<open>A handler call that reaches \<open>handleSensorData\<close> for the sensor at position \<open>i\<close>.\<close>

definition hits ::
  "(string \<Rightarrow> jsval option) \<Rightarrow> (jsval \<Rightarrow> real option) \<Rightarrow> string \<Rightarrow> sensor list \<Rightarrow>
   entity \<times> channel \<Rightarrow> nat \<Rightarrow> bool" where
  "hits P F m ss t i = (fst t = SensorRef i \<and> sensor_extract P F (ss ! i) m \<noteq> None)"


subsection \<open>The path grammar and the addressed value, from the specification\<close>

text \<open>
  The specification's grammar is \<open>segment ('.' segment | '[' digits ']')*\<close>. A path is
  read as its dotted segments, each a name followed by the digit strings of its bracket
  indices; \<open>render_path\<close> spells a path out. \<open>spec_resolve\<close> follows the
  specification's words: a dotted segment requires a keyed mapping that contains the
  key, a bracket index requires an ordered sequence and an index in bounds, and any
  mismatch yields no value.
\<close>

type_synonym segment = "string \<times> string list"








fun spec_index :: "jsval \<Rightarrow> string list \<Rightarrow> jsval option" where
  "spec_index v [] = Some v"
| "spec_index v (ds # rest) =
     (case v of
        JArr xs \<Rightarrow> if digits_value ds < length xs then spec_index (xs ! digits_value ds) rest else None
      | _ \<Rightarrow> None)"

definition spec_step :: "jsval \<Rightarrow> segment \<Rightarrow> jsval option" where
  "spec_step v seg =
     (case v of
        JObj kvs \<Rightarrow> (case map_of kvs (fst seg) of None \<Rightarrow> None | Some x \<Rightarrow> spec_index x (snd seg))
      | _ \<Rightarrow> None)"





text \<open>
  The last segment of the path is the index-free name \<open>length\<close> and the segments before
  it resolve, through objects without an own key \<open>hasOwnProperty\<close> where they are
  index-free, to an array: the result is the number of its elements.
\<close>

fun length_target :: "jsval \<Rightarrow> segment list \<Rightarrow> nat option" where
  "length_target v [] = None"
| "length_target v [seg] =
     (case v of
        JArr xs \<Rightarrow> if seg = (''length'', []) then Some (length xs) else None
      | _ \<Rightarrow> None)"
| "length_target v (seg # segs) =
     (if snd seg = [] \<and> shadowed v then None
      else (case spec_step v seg of None \<Rightarrow> None | Some x \<Rightarrow> length_target x segs))"

definition absent :: "jsval \<Rightarrow> bool" where
  "absent v = (v = JNull \<or> v = JUndefined)"



subsection \<open>Example entities\<close>

text \<open>
  The sensor and the reservoir of the specification's examples: a sensor with
  \<open>minValue = 5\<close> and \<open>maxValue = 38\<close>, and a reservoir with \<open>lowThreshold = 25\<close> whose
  pump topic carries the send envelope, read at the path \<open>data\<close>.
\<close>

definition sensor0 :: sensor where
  "sensor0 =
     \<lparr>s_id = ''s1'', s_name = ''temp'', s_topic = ''farm/temp'',
      isJsonPayload = False, jsonPath = [], jsonFormat = ''chirpstack_receive'',
      s_showReceivedTimestamp = False, mqttQos = 1,
      minValue = Some 5, maxValue = Some 38,
      s_value = 0, s_status = Offline, s_lastUpdate = 0, s_receivedTimestamp = None\<rparr>"

definition reservoir0 :: reservoir where
  "reservoir0 =
     \<lparr>r_id = ''r1'', r_name = ''tank'', r_topic = ''farm/level'',
      pumpTopic = Some ''farm/pump'', fillTopic = Some ''farm/fill'', modeTopic = Some ''farm/mode'',
      isJsonPayloadLevel = False, jsonPathLevel = [], jsonFormatLevel = ''chirpstack_receive'',
      isJsonPayloadPump = True, jsonPathPump = ''data'', jsonFormatPump = ''chirpstack_send'',
      isJsonPayloadMode = False, jsonPathMode = [], jsonFormatMode = ''chirpstack_send'',
      r_showReceivedTimestamp = False,
      lowThreshold = 25, currentLevel = 50, pumpStatus = True, isAutoMode = True,
      r_lastUpdate = 0, r_receivedTimestamp = None\<rparr>"

definition point0 :: point where
  "point0 = \<lparr>timestamp = 0, reading = SensorValue 1, p_receivedTimestamp = None\<rparr>"

text \<open>A station whose only sensor has a full series.\<close>

definition station0 :: station where
  "station0 =
     \<lparr>sensors = [sensor0], reservoirs = [reservoir0],
      sensorHistory = [''s1'' \<mapsto> replicate 1000 point0],
      reservoirHistory = Map.empty\<rparr>"

text \<open>A station whose sensor and whose reservoir level share one topic.\<close>

definition station_shared :: station where
  "station_shared =
     \<lparr>sensors = [sensor0], reservoirs = [reservoir0\<lparr>r_topic := ''farm/temp''\<rparr>],
      sensorHistory = Map.empty, reservoirHistory = Map.empty\<rparr>"


text \<open>
  The builtins on the texts of the examples. \<open>stringify0\<close> and \<open>parse0\<close> are
  \<open>JSON.stringify\<close> and \<open>JSON.parse\<close> restricted to the send envelope of a pump-on
  command; \<open>parseFloat0\<close> is \<open>parseFloat\<close> on numbers and on the text \<open>20\<close>.
\<close>

definition envelope_on :: jsval where
  "envelope_on = JObj [(''confirmed'', JBool True), (''data'', JStr ''MQ==''), (''fPort'', JNum 1)]"

definition envelope_on_text :: string where
  \<open>envelope_on_text = ''{"confirmed":true,"data":"MQ==","fPort":1}''\<close>

definition stringify0 :: "jsval \<Rightarrow> string" where
  "stringify0 v = (if v = envelope_on then envelope_on_text else [])"

definition parse0 :: "string \<Rightarrow> jsval option" where
  "parse0 s = (if s = envelope_on_text then Some envelope_on else None)"

definition parseFloat0 :: "jsval \<Rightarrow> real option" where
  "parseFloat0 v = (case v of
       JNum x \<Rightarrow> Some x
     | JStr s \<Rightarrow> if s = ''20'' then Some 20 else None
     | _ \<Rightarrow> None)"

text \<open>The request body that sets nothing but a name and a topic.\<close>

definition body0 :: sensor_body where
  "body0 =
     \<lparr>b_id = None, b_name = ''temp'', b_topic = ''farm/temp'',
      b_isJsonPayload = None, b_jsonPath = None, b_jsonFormat = None,
      b_showReceivedTimestamp = None, b_mqttQos = None,
      b_minValue = None, b_maxValue = None\<rparr>"

definition station_empty :: station where
  "station_empty =
     \<lparr>sensors = [], reservoirs = [], sensorHistory = Map.empty, reservoirHistory = Map.empty\<rparr>"

text \<open>The sensor and the station that registering \<open>body0\<close> at time 7 yields.\<close>

definition sensor1 :: sensor where
  "sensor1 =
     \<lparr>s_id = ''7'', s_name = ''temp'', s_topic = ''farm/temp'',
      isJsonPayload = False, jsonPath = [], jsonFormat = ''chirpstack_receive'',
      s_showReceivedTimestamp = False, mqttQos = 1,
      minValue = None, maxValue = None,
      s_value = 0, s_status = Offline, s_lastUpdate = 7, s_receivedTimestamp = None\<rparr>"

definition station1 :: station where
  "station1 =
     \<lparr>sensors = [sensor1], reservoirs = [],
      sensorHistory = [''7'' \<mapsto> []], reservoirHistory = Map.empty\<rparr>"

section \<open>Properties\<close>

subsection \<open>Threshold evaluation of a sensor (C3)\<close>

text \<open>
  C3. For every sensor and every numeric value \<open>v\<close>, \<open>handleSensorData\<close> stores
  \<open>value = v\<close> and \<open>lastUpdate = now\<close>. If the minimum is configured and \<open>v\<close> is below
  it, the status is \<open>warning\<close> and the only alert emitted is one low-threshold alert
  carrying \<open>v\<close> and the minimum; otherwise, if the maximum is configured and \<open>v\<close> is
  above it, the status is \<open>warning\<close> and the only alert is one high-threshold alert;
  otherwise the status is \<open>online\<close> and no alert is emitted.
\<close>

theorem handleSensorData_thresholds:
  "case handleSensorData now s h v rts of (s', h', evs, thrown) \<Rightarrow>
     s_value s' = v \<and> s_lastUpdate s' = now \<and>
     (if (\<exists>lo. minValue s = Some lo \<and> v < lo)
      then s_status s' = Warning \<and>
           filter is_alert evs = [Alert low_threshold (s_name s) v (the (minValue s))]
      else if (\<exists>hi. maxValue s = Some hi \<and> v > hi)
      then s_status s' = Warning \<and>
           filter is_alert evs = [Alert high_threshold (s_name s) v (the (maxValue s))]
      else s_status s' = Online \<and> filter is_alert evs = [])"
  by (auto simp: handleSensorData_def push_history_def Let_def split: option.splits)

text \<open>The specification's example: a sensor with \<open>minValue = 5\<close> and \<open>maxValue = 38\<close>
  ingests 3, 40 and 20.\<close>

lemma sensor0_examples:
  "s_status (fst (handleSensorData 1 sensor0 Map.empty 3 None)) = Warning"
  "filter is_alert (fst (snd (snd (handleSensorData 1 sensor0 Map.empty 3 None)))) =
     [Alert low_threshold ''temp'' 3 5]"
  "s_status (fst (handleSensorData 1 sensor0 Map.empty 40 None)) = Warning"
  "filter is_alert (fst (snd (snd (handleSensorData 1 sensor0 Map.empty 40 None)))) =
     [Alert high_threshold ''temp'' 40 38]"
  "s_status (fst (handleSensorData 1 sensor0 Map.empty 20 None)) = Online"
  "filter is_alert (fst (snd (snd (handleSensorData 1 sensor0 Map.empty 20 None)))) = []"
  by (simp_all add: handleSensorData_def push_history_def inherited_def sensor0_def stamp_def Let_def)

subsection \<open>Level ingestion of a reservoir (C4)\<close>

text \<open>
  C4. For every reservoir and every numeric level \<open>v\<close>, \<open>handleReservoirLevelData\<close>
  stores \<open>currentLevel\<close> as \<open>v\<close> clamped to \<open>[0, 100]\<close>, sets \<open>lastUpdate\<close>, and emits one
  low-level alert, carrying the clamped level and the threshold, exactly when the
  clamped level is at most \<open>lowThreshold\<close>; no other alert is emitted.
\<close>

theorem handleReservoirLevelData_clamp_alert:
  "case handleReservoirLevelData now r h v rts of (r', h', evs, thrown) \<Rightarrow>
     currentLevel r' = max 0 (min 100 v) \<and>
     0 \<le> currentLevel r' \<and> currentLevel r' \<le> 100 \<and>
     r_lastUpdate r' = now \<and>
     filter is_alert evs =
       (if currentLevel r' \<le> lowThreshold r
        then [Alert low_level (r_name r) (currentLevel r') (lowThreshold r)] else [])"
  by (auto simp: handleReservoirLevelData_def push_history_def Let_def split: option.splits)

text \<open>The specification's example: a reservoir with \<open>lowThreshold = 25\<close> ingests the
  levels 130, -10, 20 and 30.\<close>

lemma reservoir0_examples:
  "currentLevel (fst (handleReservoirLevelData 1 reservoir0 Map.empty 130 None)) = 100"
  "currentLevel (fst (handleReservoirLevelData 1 reservoir0 Map.empty (- 10) None)) = 0"
  "filter is_alert (fst (snd (snd (handleReservoirLevelData 1 reservoir0 Map.empty 20 None)))) =
     [Alert low_level ''tank'' 20 25]"
  "filter is_alert (fst (snd (snd (handleReservoirLevelData 1 reservoir0 Map.empty 30 None)))) = []"
  by (simp_all add: handleReservoirLevelData_def push_history_def inherited_def reservoir0_def stamp_def Let_def)

subsection \<open>The history stays bounded and evicts the oldest point (C5)\<close>

lemma push_history_cases:
  "push_history h k p =
     (if inherited h k then Inl TypeError else Inr (h(k \<mapsto> appended (series h k) p)))"
proof -
  have "tl (ps @ [p]) = tl ps @ [p]" if "\<not> length ps < 1000" for ps :: "point list"
    using that by (cases ps) simp_all
  then show ?thesis
    by (auto simp: push_history_def appended_def series_def Let_def split: option.splits)
qed

lemma series_upd: "series (h(k \<mapsto> ps)) k' = (if k' = k then ps else series h k')"
  by (simp add: series_def)

lemma appended_length: "length ps \<le> 1000 \<Longrightarrow> length (appended ps p) \<le> 1000"
  by (simp add: appended_def)

lemma bounded_upd: "bounded h \<Longrightarrow> length ps \<le> 1000 \<Longrightarrow> bounded (h(k \<mapsto> ps))"
  by (simp add: bounded_def series_upd)

lemma bounded_appended: "bounded h \<Longrightarrow> bounded (h(k \<mapsto> appended (series h k) p))"
  by (rule bounded_upd) (simp_all add: bounded_def appended_length)

lemma bounded_empty: "bounded Map.empty"
  by (simp add: bounded_def series_def)

lemma sensor_history:
  "fst (snd (handleSensorData now s h v rts)) =
     (if inherited h (s_id s) then h
      else h(s_id s \<mapsto> appended (series h (s_id s))
             \<lparr>timestamp = now, reading = SensorValue v,
              p_receivedTimestamp = stamp rts (s_showReceivedTimestamp s)\<rparr>))"
  by (simp add: handleSensorData_def push_history_cases Let_def)

lemma sensor_thrown:
  "snd (snd (snd (handleSensorData now s h v rts))) =
     (if inherited h (s_id s) then Some TypeError else None)"
  by (simp add: handleSensorData_def push_history_cases Let_def)

lemma level_history:
  "fst (snd (handleReservoirLevelData now r h v rts)) =
     (if inherited h (r_id r) then h
      else h(r_id r \<mapsto> appended (series h (r_id r))
             \<lparr>timestamp = now, reading = ReservoirLevel (max 0 (min 100 v)),
              p_receivedTimestamp = stamp rts (r_showReceivedTimestamp r)\<rparr>))"
  by (simp add: handleReservoirLevelData_def push_history_cases Let_def split: option.splits)

lemma level_thrown:
  "snd (snd (snd (handleReservoirLevelData now r h v rts))) =
     (if inherited h (r_id r) then Some TypeError else None)"
  by (simp add: handleReservoirLevelData_def push_history_cases Let_def split: option.splits)

lemma topic_history_bounded:
  "bounded h \<Longrightarrow> bounded (fst (snd (handleReservoirTopicMessage P F now r h m ch rts)))"
  by (auto simp: handleReservoirTopicMessage_def level_history bounded_appended Let_def
      split: option.splits channel.splits prod.splits)

lemma deliver_bounded:
  assumes a: "station_bounded (fst acc)"
  shows "station_bounded (fst (fst (deliver P F now m acc t)))"
proof -
  obtain st out where acc: "acc = (st, out)" by (cases acc)
  obtain e ch where t: "t = (e, ch)" by (cases t)
  show ?thesis
  proof (cases e)
    case (SensorRef i)
    show ?thesis
    proof (cases "sensor_extract P F (sensors st ! i) m")
      case None
      with a acc t SensorRef show ?thesis by (simp add: deliver_def)
    next
      case (Some v)
      have "bounded (fst (snd (handleSensorData now (sensors st ! i) (sensorHistory st) v (Some now))))"
        using a acc by (simp add: sensor_history bounded_appended station_bounded_def)
      with a acc t SensorRef Some show ?thesis
        by (simp add: deliver_def station_bounded_def case_prod_beta)
    qed
  next
    case (ReservoirRef j)
    have "bounded (fst (snd (handleReservoirTopicMessage P F now (reservoirs st ! j)
             (reservoirHistory st) m ch (Some now))))"
      using a acc by (simp add: topic_history_bounded station_bounded_def)
    with a acc t ReservoirRef show ?thesis
      by (simp add: deliver_def station_bounded_def case_prod_beta)
  qed
qed

lemma deliver_all_bounded:
  "station_bounded (fst acc) \<Longrightarrow> station_bounded (fst (deliver_all P F now m acc ts))"
proof (induction ts arbitrary: acc)
  case Nil
  then show ?case by simp
next
  case (Cons t ts)
  have b: "station_bounded (fst (fst (deliver P F now m acc t)))"
    using Cons.prems by (rule deliver_bounded)
  show ?case
  proof (cases "snd (deliver P F now m acc t)")
    case None
    then have "deliver_all P F now m acc (t # ts) =
        deliver_all P F now m (fst (deliver P F now m acc t)) ts"
      by (simp add: case_prod_beta)
    with b Cons.IH show ?thesis by simp
  next
    case (Some e)
    then have "deliver_all P F now m acc (t # ts) = fst (deliver P F now m acc t)"
      by (simp add: case_prod_beta)
    with b show ?thesis by simp
  qed
qed

lemma on_message_bounded:
  "station_bounded st \<Longrightarrow> station_bounded (fst (on_message P F now st topic m))"
  by (simp add: on_message_def deliver_all_bounded)

lemma post_sensor_bounded:
  "station_bounded st \<Longrightarrow>
   station_bounded (case post_sensor now now_id st body of Inl _ \<Rightarrow> st | Inr created \<Rightarrow> fst created)"
  by (auto simp: post_sensor_def station_bounded_def bounded_upd Let_def split: option.splits)

lemma run_bounded:
  "station_bounded st \<Longrightarrow> station_bounded (run P F st ops)"
proof (induction ops arbitrary: st)
  case Nil
  then show ?case by simp
next
  case (Cons op ops)
  then show ?case
    by (cases op) (simp_all add: on_message_bounded post_sensor_bounded)
qed

text \<open>
  C5. The series of an entity is the array stored under its identifier in the history
  object. From a station that stores no series (as the server starts, with
  \<open>sensorHistory: {}\<close> and \<open>reservoirHistory: {}\<close>), and from any station whose
  series have at most 1000 points, every series has at most 1000 points after any
  sequence of registrations and inbound messages. An ingestion by \<open>handleSensorData\<close>
  or \<open>handleReservoirLevelData\<close> appends its point at the end of the entity's series
  and leaves the other series as they are; when the series already holds 1000 points,
  the first (oldest) point is dropped and the other points are kept in their order.
  The one ingestion that appends nothing is that for an entity without a series whose
  identifier names an inherited member of the history object: there \<open>.push\<close> throws and
  the history is left as it was.
\<close>

theorem history_bounded_fifo:
  "(sensorHistory st = Map.empty \<and> reservoirHistory st = Map.empty \<longrightarrow>
      station_bounded (run JSON_parse parseFloat st ops)) \<and>
   (station_bounded st \<longrightarrow> station_bounded (run JSON_parse parseFloat st ops)) \<and>
   (case handleSensorData now s h v rts of (s', h1, evs, thrown) \<Rightarrow>
      if inherited h (s_id s) then thrown = Some TypeError \<and> h1 = h
      else thrown = None \<and>
           (\<forall>k. series h1 k =
              (if k = s_id s
               then (let entry = \<lparr>timestamp = now, reading = SensorValue v,
                                   p_receivedTimestamp = stamp rts (s_showReceivedTimestamp s)\<rparr>
                     in if length (series h (s_id s)) < 1000 then series h (s_id s) @ [entry]
                        else tl (series h (s_id s)) @ [entry])
               else series h k))) \<and>
   (case handleReservoirLevelData now r g level rts of (r', g1, evs, thrown) \<Rightarrow>
      if inherited g (r_id r) then thrown = Some TypeError \<and> g1 = g
      else thrown = None \<and>
           (\<forall>k. series g1 k =
              (if k = r_id r
               then (let entry = \<lparr>timestamp = now, reading = ReservoirLevel (max 0 (min 100 level)),
                                   p_receivedTimestamp = stamp rts (r_showReceivedTimestamp r)\<rparr>
                     in if length (series g (r_id r)) < 1000 then series g (r_id r) @ [entry]
                        else tl (series g (r_id r)) @ [entry])
               else series g k)))"
proof -
  have "station_bounded st"
    if "sensorHistory st = Map.empty" "reservoirHistory st = Map.empty"
    using that by (simp add: station_bounded_def bounded_empty)
  then have 1: "sensorHistory st = Map.empty \<and> reservoirHistory st = Map.empty \<longrightarrow>
      station_bounded (run JSON_parse parseFloat st ops)"
    by (simp add: run_bounded)
  have 2: "station_bounded st \<longrightarrow> station_bounded (run JSON_parse parseFloat st ops)"
    by (simp add: run_bounded)
  show ?thesis
    using 1 2
    by (simp add: case_prod_beta sensor_history sensor_thrown level_history level_thrown
        series_upd appended_def Let_def)
qed

theorem history_bounded_fifo_witness:
  "station_bounded station0 \<and>
   station_bounded
     (run (\<lambda>_. None) (\<lambda>_. Some 20) station0 [Message 1 ''farm/temp'' ''20'']) \<and>
   sensorHistory station_shared = Map.empty \<and> reservoirHistory station_shared = Map.empty \<and>
   station_bounded
     (run (\<lambda>_. None) (\<lambda>_. Some 20) station_shared
        [Register 1 ''1'' body0, Message 2 ''farm/temp'' ''20''])"
proof -
  have "station_bounded station0"
    by (simp add: station_bounded_def bounded_def series_def station0_def)
  moreover have "sensorHistory station_shared = Map.empty \<and> reservoirHistory station_shared = Map.empty"
    by (simp add: station_shared_def)
  ultimately show ?thesis
    using history_bounded_fifo [of station0 "\<lambda>_. None" "\<lambda>_. Some 20" "[Message 1 ''farm/temp'' ''20'']"]
      history_bounded_fifo [of station_shared "\<lambda>_. None" "\<lambda>_. Some 20"
        "[Register 1 ''1'' body0, Message 2 ''farm/temp'' ''20'']"]
    by blast
qed

subsection \<open>Ingesting the same value twice (C9)\<close>

lemma sensor_after:
  "fst (handleSensorData now s h v rts) =
     s\<lparr>s_value := v, s_lastUpdate := now,
       s_status := (if (\<exists>lo. minValue s = Some lo \<and> v < lo) \<or> (\<exists>hi. maxValue s = Some hi \<and> v > hi)
                    then Warning else Online),
       s_receivedTimestamp := (case stamp rts (s_showReceivedTimestamp s) of
                                 None \<Rightarrow> s_receivedTimestamp s | Some t \<Rightarrow> Some t)\<rparr>"
  by (cases "minValue s"; cases "maxValue s"; cases "stamp rts (s_showReceivedTimestamp s)")
     (simp_all add: handleSensorData_def push_history_cases Let_def)

lemma sensor_alerts:
  "filter is_alert (fst (snd (snd (handleSensorData now s h v rts)))) =
     (case minValue s of
        None \<Rightarrow> (case maxValue s of
                    None \<Rightarrow> []
                  | Some hi \<Rightarrow> if v > hi then [Alert high_threshold (s_name s) v hi] else [])
      | Some lo \<Rightarrow>
          if v < lo then [Alert low_threshold (s_name s) v lo]
          else (case maxValue s of
                  None \<Rightarrow> []
                | Some hi \<Rightarrow> if v > hi then [Alert high_threshold (s_name s) v hi] else []))"
  by (cases "minValue s"; cases "maxValue s")
     (simp_all add: handleSensorData_def push_history_cases Let_def)

lemma sensor_events:
  "fst (snd (snd (handleSensorData now s h v rts))) =
     filter is_alert (fst (snd (snd (handleSensorData now s h v rts)))) @
     (if inherited h (s_id s) then []
      else [sensor_realtime_update (s_id s) v (s_status (fst (handleSensorData now s h v rts)))
              now (stamp rts (s_showReceivedTimestamp s))])"
  by (cases "minValue s"; cases "maxValue s")
     (simp_all add: handleSensorData_def push_history_cases Let_def)

lemma sensor_reingest:
  "fst (handleSensorData now2 (fst (handleSensorData now s h v rts)) h1 v rts2) =
     (case stamp rts2 (s_showReceivedTimestamp s) of
        None \<Rightarrow> (fst (handleSensorData now s h v rts))\<lparr>s_lastUpdate := now2\<rparr>
      | Some t \<Rightarrow> (fst (handleSensorData now s h v rts))
                    \<lparr>s_lastUpdate := now2, s_receivedTimestamp := Some t\<rparr>)"
  by (simp add: sensor_after split: option.splits)

lemma sensor_alerts_again:
  "filter is_alert (fst (snd (snd (handleSensorData now2 (fst (handleSensorData now s h v rts)) h1 v rts2)))) =
   filter is_alert (fst (snd (snd (handleSensorData now s h v rts))))"
  by (simp add: sensor_alerts sensor_after cong: option.case_cong if_cong)

lemma sensor_same_clock:
  "(case stamp rts (s_showReceivedTimestamp s) of
      None \<Rightarrow> (fst (handleSensorData now s h v rts))\<lparr>s_lastUpdate := now\<rparr>
    | Some t \<Rightarrow> (fst (handleSensorData now s h v rts))
                  \<lparr>s_lastUpdate := now, s_receivedTimestamp := Some t\<rparr>) =
   fst (handleSensorData now s h v rts)"
  by (simp add: sensor_after split: option.splits)

lemma level_after:
  "fst (handleReservoirLevelData now r g level rts) =
     r\<lparr>currentLevel := max 0 (min 100 level), r_lastUpdate := now,
       r_receivedTimestamp := (case stamp rts (r_showReceivedTimestamp r) of
                                 None \<Rightarrow> r_receivedTimestamp r | Some t \<Rightarrow> Some t)\<rparr>"
  by (cases "stamp rts (r_showReceivedTimestamp r)")
     (simp_all add: handleReservoirLevelData_def push_history_cases Let_def)

lemma level_alerts:
  "filter is_alert (fst (snd (snd (handleReservoirLevelData now r g level rts)))) =
     (if max 0 (min 100 level) \<le> lowThreshold r
      then [Alert low_level (r_name r) (max 0 (min 100 level)) (lowThreshold r)] else [])"
  by (cases "stamp rts (r_showReceivedTimestamp r)")
     (simp_all add: handleReservoirLevelData_def push_history_cases Let_def)

lemma level_events:
  "fst (snd (snd (handleReservoirLevelData now r g level rts))) =
     filter is_alert (fst (snd (snd (handleReservoirLevelData now r g level rts)))) @
     (if inherited g (r_id r) then []
      else [reservoir_realtime_update (r_id r) (max 0 (min 100 level))
              now (stamp rts (r_showReceivedTimestamp r))])"
  by (cases "stamp rts (r_showReceivedTimestamp r)")
     (simp_all add: handleReservoirLevelData_def push_history_cases Let_def)

lemma level_reingest:
  "fst (handleReservoirLevelData now2 (fst (handleReservoirLevelData now r g level rts)) g1 level rts2) =
     (case stamp rts2 (r_showReceivedTimestamp r) of
        None \<Rightarrow> (fst (handleReservoirLevelData now r g level rts))\<lparr>r_lastUpdate := now2\<rparr>
      | Some t \<Rightarrow> (fst (handleReservoirLevelData now r g level rts))
                    \<lparr>r_lastUpdate := now2, r_receivedTimestamp := Some t\<rparr>)"
  by (simp add: level_after split: option.splits)

lemma level_alerts_again:
  "filter is_alert (fst (snd (snd (handleReservoirLevelData now2 (fst (handleReservoirLevelData now r g level rts)) g1 level rts2)))) =
   filter is_alert (fst (snd (snd (handleReservoirLevelData now r g level rts))))"
  by (simp add: level_alerts level_after cong: option.case_cong if_cong)

lemma level_same_clock:
  "(case stamp rts (r_showReceivedTimestamp r) of
      None \<Rightarrow> (fst (handleReservoirLevelData now r g level rts))\<lparr>r_lastUpdate := now\<rparr>
    | Some t \<Rightarrow> (fst (handleReservoirLevelData now r g level rts))
                  \<lparr>r_lastUpdate := now, r_receivedTimestamp := Some t\<rparr>) =
   fst (handleReservoirLevelData now r g level rts)"
  by (simp add: level_after split: option.splits)

lemma sensor_record_kept:
  "s_id (fst (handleSensorData now s h v rts)) = s_id s"
  "s_showReceivedTimestamp (fst (handleSensorData now s h v rts)) = s_showReceivedTimestamp s"
  by (simp_all add: sensor_after)

lemma level_record_kept:
  "r_id (fst (handleReservoirLevelData now r g level rts)) = r_id r"
  "r_showReceivedTimestamp (fst (handleReservoirLevelData now r g level rts)) = r_showReceivedTimestamp r"
  by (simp_all add: level_after)

lemma inherited_upd: "inherited (h(k \<mapsto> ps)) k = False"
  by (simp add: inherited_def)

lemma sensor_twice:
  fixes now now2 :: time
  defines "entry2 \<equiv> \<lambda>now2 v rts2 s. \<lparr>timestamp = now2, reading = SensorValue v,
             p_receivedTimestamp = stamp rts2 (s_showReceivedTimestamp s)\<rparr>"
  shows "(case handleSensorData now s h v rts of (s1, h1, e1, t1) \<Rightarrow>
      (case handleSensorData now2 s1 h1 v rts2 of (s2, h2, e2, t2) \<Rightarrow>
         s2 = (case stamp rts2 (s_showReceivedTimestamp s) of
                 None \<Rightarrow> s1\<lparr>s_lastUpdate := now2\<rparr>
               | Some t \<Rightarrow> s1\<lparr>s_lastUpdate := now2, s_receivedTimestamp := Some t\<rparr>) \<and>
         filter is_alert e2 = filter is_alert e1 \<and> t2 = t1 \<and>
         (if inherited h (s_id s) then t1 = Some TypeError \<and> h1 = h \<and> h2 = h \<and> e2 = e1
          else t1 = None \<and>
               (\<forall>k. series h2 k =
                  (if k = s_id s then appended (series h1 (s_id s)) (entry2 now2 v rts2 s)
                   else series h1 k)) \<and>
               e2 = filter is_alert e1 @
                    [sensor_realtime_update (s_id s) v (s_status s1) now2
                       (stamp rts2 (s_showReceivedTimestamp s))]) \<and>
         (now2 = now \<and> rts2 = rts \<longrightarrow> s2 = s1 \<and> e2 = e1)))"
proof -
  let ?R1 = "handleSensorData now s h v rts"
  let ?s1 = "fst ?R1" and ?h1 = "fst (snd ?R1)" and ?e1 = "fst (snd (snd ?R1))"
    and ?t1 = "snd (snd (snd ?R1))"
  let ?R2 = "handleSensorData now2 ?s1 ?h1 v rts2"
  let ?s2 = "fst ?R2" and ?h2 = "fst (snd ?R2)" and ?e2 = "fst (snd (snd ?R2))"
    and ?t2 = "snd (snd (snd ?R2))"
  have inh: "inherited ?h1 (s_id s) = inherited h (s_id s)"
    by (simp add: sensor_history inherited_upd)
  have s2: "?s2 = (case stamp rts2 (s_showReceivedTimestamp s) of
                 None \<Rightarrow> ?s1\<lparr>s_lastUpdate := now2\<rparr>
               | Some t \<Rightarrow> ?s1\<lparr>s_lastUpdate := now2, s_receivedTimestamp := Some t\<rparr>)"
    by (rule sensor_reingest)
  have al: "filter is_alert ?e2 = filter is_alert ?e1"
    by (rule sensor_alerts_again)
  have t1: "?t1 = (if inherited h (s_id s) then Some TypeError else None)"
    by (rule sensor_thrown)
  have t2: "?t2 = ?t1"
    by (simp add: sensor_thrown sensor_record_kept inh)
  have h1: "inherited h (s_id s) \<Longrightarrow> ?h1 = h"
    by (simp add: sensor_history)
  have h2: "?h2 = (if inherited h (s_id s) then ?h1
                   else ?h1(s_id s \<mapsto> appended (series ?h1 (s_id s)) (entry2 now2 v rts2 s)))"
    unfolding sensor_history [of now2 ?s1 ?h1 v rts2] sensor_record_kept inh entry2_def ..
  have st: "s_status ?s2 = s_status ?s1"
    by (simp add: s2 split: option.splits)
  have e2: "?e2 = filter is_alert ?e1 @
      (if inherited h (s_id s) then []
       else [sensor_realtime_update (s_id s) v (s_status ?s1) now2
               (stamp rts2 (s_showReceivedTimestamp s))])"
    using sensor_events [of now2 ?s1 ?h1 v rts2]
    unfolding al st sensor_record_kept inh .
  have e1: "inherited h (s_id s) \<Longrightarrow> filter is_alert ?e1 = ?e1"
    using sensor_events [of now s h v rts] by simp
  have same: "now2 = now \<and> rts2 = rts \<longrightarrow> ?s2 = ?s1 \<and> ?e2 = ?e1"
  proof (intro impI conjI)
    assume a: "now2 = now \<and> rts2 = rts"
    then have n: "now2 = now" and r: "rts2 = rts" by simp_all
    have "?s2 = (case stamp rts (s_showReceivedTimestamp s) of
                 None \<Rightarrow> ?s1\<lparr>s_lastUpdate := now\<rparr>
               | Some t \<Rightarrow> ?s1\<lparr>s_lastUpdate := now, s_receivedTimestamp := Some t\<rparr>)"
      using s2 unfolding n r .
    also have "\<dots> = ?s1" by (rule sensor_same_clock)
    finally show "?s2 = ?s1" .
    have "?e2 = filter is_alert ?e1 @
      (if inherited h (s_id s) then []
       else [sensor_realtime_update (s_id s) v (s_status ?s1) now
               (stamp rts (s_showReceivedTimestamp s))])"
      using e2 unfolding n r .
    also have "\<dots> = ?e1" by (rule sensor_events [symmetric])
    finally show "?e2 = ?e1" .
  qed
  have ser: "\<not> inherited h (s_id s) \<Longrightarrow> series ?h2 k =
      (if k = s_id s then appended (series ?h1 (s_id s)) (entry2 now2 v rts2 s)
       else series ?h1 k)" for k
    by (simp add: h2 series_upd)
  show ?thesis
  proof (cases "inherited h (s_id s)")
    case True
    have "?t1 = Some TypeError" "?h1 = h" "?h2 = h" "?e2 = ?e1"
      using True t1 h1 h2 e2 e1 by simp_all
    with s2 al t2 same show ?thesis
      unfolding case_prod_beta by (simp only: True if_True; blast)
  next
    case False
    have "?t1 = None"
      using False t1 by simp
    moreover have "?e2 = filter is_alert ?e1 @
                    [sensor_realtime_update (s_id s) v (s_status ?s1) now2
                       (stamp rts2 (s_showReceivedTimestamp s))]"
      using False e2 by simp
    moreover have "\<forall>k. series ?h2 k =
        (if k = s_id s then appended (series ?h1 (s_id s)) (entry2 now2 v rts2 s)
         else series ?h1 k)"
      using False ser by blast
    ultimately show ?thesis
      using s2 al t2 same
      unfolding case_prod_beta by (simp only: False if_False; blast)
  qed
qed

lemma level_twice:
  fixes now now2 :: time
  defines "entry2 \<equiv> \<lambda>now2 level rts2 r. \<lparr>timestamp = now2,
             reading = ReservoirLevel (max 0 (min 100 level)),
             p_receivedTimestamp = stamp rts2 (r_showReceivedTimestamp r)\<rparr>"
  shows "(case handleReservoirLevelData now r g level rts of (r1, g1, e1, t1) \<Rightarrow>
      (case handleReservoirLevelData now2 r1 g1 level rts2 of (r2, g2, e2, t2) \<Rightarrow>
         r2 = (case stamp rts2 (r_showReceivedTimestamp r) of
                 None \<Rightarrow> r1\<lparr>r_lastUpdate := now2\<rparr>
               | Some t \<Rightarrow> r1\<lparr>r_lastUpdate := now2, r_receivedTimestamp := Some t\<rparr>) \<and>
         filter is_alert e2 = filter is_alert e1 \<and> t2 = t1 \<and>
         (if inherited g (r_id r) then t1 = Some TypeError \<and> g1 = g \<and> g2 = g \<and> e2 = e1
          else t1 = None \<and>
               (\<forall>k. series g2 k =
                  (if k = r_id r then appended (series g1 (r_id r)) (entry2 now2 level rts2 r)
                   else series g1 k)) \<and>
               e2 = filter is_alert e1 @
                    [reservoir_realtime_update (r_id r) (max 0 (min 100 level)) now2
                       (stamp rts2 (r_showReceivedTimestamp r))]) \<and>
         (now2 = now \<and> rts2 = rts \<longrightarrow> r2 = r1 \<and> e2 = e1)))"
proof -
  let ?R1 = "handleReservoirLevelData now r g level rts"
  let ?r1 = "fst ?R1" and ?g1 = "fst (snd ?R1)" and ?e1 = "fst (snd (snd ?R1))"
    and ?t1 = "snd (snd (snd ?R1))"
  let ?R2 = "handleReservoirLevelData now2 ?r1 ?g1 level rts2"
  let ?r2 = "fst ?R2" and ?g2 = "fst (snd ?R2)" and ?e2 = "fst (snd (snd ?R2))"
    and ?t2 = "snd (snd (snd ?R2))"
  have inh: "inherited ?g1 (r_id r) = inherited g (r_id r)"
    by (simp add: level_history inherited_upd)
  have r2: "?r2 = (case stamp rts2 (r_showReceivedTimestamp r) of
                 None \<Rightarrow> ?r1\<lparr>r_lastUpdate := now2\<rparr>
               | Some t \<Rightarrow> ?r1\<lparr>r_lastUpdate := now2, r_receivedTimestamp := Some t\<rparr>)"
    by (rule level_reingest)
  have al: "filter is_alert ?e2 = filter is_alert ?e1"
    by (rule level_alerts_again)
  have t1: "?t1 = (if inherited g (r_id r) then Some TypeError else None)"
    by (rule level_thrown)
  have t2: "?t2 = ?t1"
    by (simp add: level_thrown level_record_kept inh)
  have g1: "inherited g (r_id r) \<Longrightarrow> ?g1 = g"
    by (simp add: level_history)
  have cl: "max 0 (min 100 (max 0 (min 100 level))) = max 0 (min 100 level)"
    by simp
  have g2: "?g2 = (if inherited g (r_id r) then ?g1
                   else ?g1(r_id r \<mapsto> appended (series ?g1 (r_id r)) (entry2 now2 level rts2 r)))"
    unfolding level_history [of now2 ?r1 ?g1 level rts2] level_record_kept inh entry2_def ..
  have e2: "?e2 = filter is_alert ?e1 @
      (if inherited g (r_id r) then []
       else [reservoir_realtime_update (r_id r) (max 0 (min 100 level)) now2
               (stamp rts2 (r_showReceivedTimestamp r))])"
    using level_events [of now2 ?r1 ?g1 level rts2]
    unfolding al level_record_kept inh .
  have e1: "inherited g (r_id r) \<Longrightarrow> filter is_alert ?e1 = ?e1"
    using level_events [of now r g level rts] by simp
  have same: "now2 = now \<and> rts2 = rts \<longrightarrow> ?r2 = ?r1 \<and> ?e2 = ?e1"
  proof (intro impI conjI)
    assume a: "now2 = now \<and> rts2 = rts"
    then have n: "now2 = now" and rr: "rts2 = rts" by simp_all
    have "?r2 = (case stamp rts (r_showReceivedTimestamp r) of
                 None \<Rightarrow> ?r1\<lparr>r_lastUpdate := now\<rparr>
               | Some t \<Rightarrow> ?r1\<lparr>r_lastUpdate := now, r_receivedTimestamp := Some t\<rparr>)"
      using r2 unfolding n rr .
    also have "\<dots> = ?r1" by (rule level_same_clock)
    finally show "?r2 = ?r1" .
    have "?e2 = filter is_alert ?e1 @
      (if inherited g (r_id r) then []
       else [reservoir_realtime_update (r_id r) (max 0 (min 100 level)) now
               (stamp rts (r_showReceivedTimestamp r))])"
      using e2 unfolding n rr .
    also have "\<dots> = ?e1" by (rule level_events [symmetric])
    finally show "?e2 = ?e1" .
  qed
  have ser: "\<not> inherited g (r_id r) \<Longrightarrow> series ?g2 k =
      (if k = r_id r then appended (series ?g1 (r_id r)) (entry2 now2 level rts2 r)
       else series ?g1 k)" for k
    by (simp add: g2 series_upd)
  show ?thesis
  proof (cases "inherited g (r_id r)")
    case True
    have "?t1 = Some TypeError" "?g1 = g" "?g2 = g" "?e2 = ?e1"
      using True t1 g1 g2 e2 e1 by simp_all
    with r2 al t2 same show ?thesis
      unfolding case_prod_beta by (simp only: True if_True; blast)
  next
    case False
    have "?t1 = None"
      using False t1 by simp
    moreover have "?e2 = filter is_alert ?e1 @
                    [reservoir_realtime_update (r_id r) (max 0 (min 100 level)) now2
                       (stamp rts2 (r_showReceivedTimestamp r))]"
      using False e2 by simp
    moreover have "\<forall>k. series ?g2 k =
        (if k = r_id r then appended (series ?g1 (r_id r)) (entry2 now2 level rts2 r)
         else series ?g1 k)"
      using False ser by blast
    ultimately show ?thesis
      using r2 al t2 same
      unfolding case_prod_beta by (simp only: False if_False; blast)
  qed
qed

text \<open>
  C9 as stated fails: the second ingestion of the same value appends a second point to
  the history. From the empty history, the series of \<open>sensor0\<close> has one point after the
  first ingestion and two after the second, at one and the same clock reading.
\<close>

theorem reingest_counterexample:
  "case handleSensorData 1 sensor0 Map.empty 20 None of (s1, h1, e1, t1) \<Rightarrow>
     (case handleSensorData 1 s1 h1 20 None of (s2, h2, e2, t2) \<Rightarrow>
        t1 = None \<and> t2 = None \<and>
        length (series h1 ''s1'') = 1 \<and> length (series h2 ''s1'') = 2 \<and> (s2, h2) \<noteq> (s1, h1))"
proof -
  let ?R1 = "handleSensorData 1 sensor0 Map.empty 20 None"
  let ?R2 = "handleSensorData 1 (fst ?R1) (fst (snd ?R1)) 20 None"
  have id0: "s_id sensor0 = ''s1''" by (simp add: sensor0_def)
  have n0: "\<not> inherited Map.empty ''s1''"
    by (simp add: inherited_def object_members_def)
  have l1: "length (series (fst (snd ?R1)) ''s1'') = 1"
    by (simp add: sensor_history id0 n0 series_upd appended_def series_def)
  have n1: "\<not> inherited (fst (snd ?R1)) ''s1''"
    by (simp add: sensor_history id0 n0 inherited_upd)
  have l2: "length (series (fst (snd ?R2)) ''s1'') = 2"
    using l1 by (simp add: sensor_history [of 1 "fst ?R1"] sensor_record_kept id0 n1 series_upd appended_def)
  from l1 l2 have "fst (snd ?R2) \<noteq> fst (snd ?R1)" by auto
  moreover have "snd (snd (snd ?R1)) = None" "snd (snd (snd ?R2)) = None"
    by (simp_all add: sensor_thrown sensor_record_kept id0 n0 n1)
  ultimately show ?thesis
    using l1 l2 by (simp add: case_prod_beta)
qed

text \<open>
  C9, amended. Ingesting the same value a second time, at any clock reading, changes
  the record of the sensor or reservoir only in \<open>lastUpdate\<close> and, when it is shown,
  in \<open>receivedTimestamp\<close>, which take the second reading: value and status, or level,
  stay as the first ingestion left them, and the same alerts are emitted again. At the
  same clock reading the record and the events are those of the first ingestion. The
  history is not left as it was: the second ingestion appends a second point to the
  entity's series, as the first did, dropping the oldest point when the series holds
  1000 points, and leaves the other series alone. The exception is an entity without
  a series whose identifier names an inherited member of the history object: both
  ingestions throw after the record is updated and the alert emitted, no update event
  is emitted and the history is left as it was.
\<close>

theorem reingest_entity_fixed:
  "(case handleSensorData now s h v rts of (s1, h1, e1, t1) \<Rightarrow>
      (case handleSensorData now2 s1 h1 v rts2 of (s2, h2, e2, t2) \<Rightarrow>
         s2 = (case stamp rts2 (s_showReceivedTimestamp s) of
                 None \<Rightarrow> s1\<lparr>s_lastUpdate := now2\<rparr>
               | Some t \<Rightarrow> s1\<lparr>s_lastUpdate := now2, s_receivedTimestamp := Some t\<rparr>) \<and>
         filter is_alert e2 = filter is_alert e1 \<and> t2 = t1 \<and>
         (if inherited h (s_id s) then t1 = Some TypeError \<and> h1 = h \<and> h2 = h \<and> e2 = e1
          else t1 = None \<and>
               (\<forall>k. series h2 k =
                  (if k = s_id s
                   then appended (series h1 (s_id s))
                          \<lparr>timestamp = now2, reading = SensorValue v,
                           p_receivedTimestamp = stamp rts2 (s_showReceivedTimestamp s)\<rparr>
                   else series h1 k)) \<and>
               e2 = filter is_alert e1 @
                    [sensor_realtime_update (s_id s) v (s_status s1) now2
                       (stamp rts2 (s_showReceivedTimestamp s))]) \<and>
         (now2 = now \<and> rts2 = rts \<longrightarrow> s2 = s1 \<and> e2 = e1))) \<and>
   (case handleReservoirLevelData now r g level rts of (r1, g1, f1, u1) \<Rightarrow>
      (case handleReservoirLevelData now2 r1 g1 level rts2 of (r2, g2, f2, u2) \<Rightarrow>
         r2 = (case stamp rts2 (r_showReceivedTimestamp r) of
                 None \<Rightarrow> r1\<lparr>r_lastUpdate := now2\<rparr>
               | Some t \<Rightarrow> r1\<lparr>r_lastUpdate := now2, r_receivedTimestamp := Some t\<rparr>) \<and>
         filter is_alert f2 = filter is_alert f1 \<and> u2 = u1 \<and>
         (if inherited g (r_id r) then u1 = Some TypeError \<and> g1 = g \<and> g2 = g \<and> f2 = f1
          else u1 = None \<and>
               (\<forall>k. series g2 k =
                  (if k = r_id r
                   then appended (series g1 (r_id r))
                          \<lparr>timestamp = now2, reading = ReservoirLevel (max 0 (min 100 level)),
                           p_receivedTimestamp = stamp rts2 (r_showReceivedTimestamp r)\<rparr>
                   else series g1 k)) \<and>
               f2 = filter is_alert f1 @
                    [reservoir_realtime_update (r_id r) (max 0 (min 100 level)) now2
                       (stamp rts2 (r_showReceivedTimestamp r))]) \<and>
         (now2 = now \<and> rts2 = rts \<longrightarrow> r2 = r1 \<and> f2 = f1)))"
  by (rule conjI [OF sensor_twice level_twice])

theorem reingest_entity_fixed_witness:
  "\<not> inherited Map.empty (s_id sensor0) \<and>
   fst (handleSensorData 1 (fst (handleSensorData 1 sensor0 Map.empty 20 None))
          (fst (snd (handleSensorData 1 sensor0 Map.empty 20 None))) 20 None) =
   fst (handleSensorData 1 sensor0 Map.empty 20 None)"
proof -
  have n0: "\<not> inherited Map.empty (s_id sensor0)"
    by (simp add: inherited_def object_members_def sensor0_def)
  have "(1::time) = 1 \<and> (None::time option) = None"
    by simp
  with n0 show ?thesis
    using reingest_entity_fixed [where now = 1 and s = sensor0 and h = Map.empty and v = 20 and rts = None
        and ?now2.0 = 1 and ?rts2.0 = None and r = reservoir0 and g = Map.empty and level = 20,
        THEN conjunct1, unfolded case_prod_beta]
    by blast
qed

subsection \<open>The history query (C6)\<close>

















subsection \<open>Routing of a message (C1)\<close>











subsection \<open>Pump messages (C8)\<close>

lemma pump_message:
  "handleReservoirTopicMessage JSON_parse parseFloat now r h m Pump rts =
     (case reservoir_extract JSON_parse (isJsonPayloadPump r, jsonPathPump r, jsonFormatPump r) m of
        None \<Rightarrow> (r, h, [], None)
      | Some v \<Rightarrow>
          (case handleReservoirPumpData now r (pump_of v) rts of (r', evs) \<Rightarrow> (r', h, evs, None)))"
  by (auto simp: handleReservoirTopicMessage_def topicConfig_def pump_of_def truthy_def Let_def
      split: option.splits jsval.splits)

text \<open>The shape tests throw exactly on an object with an own key \<open>hasOwnProperty\<close>.\<close>

lemma has_all_shadowed: "shadowed v \<Longrightarrow> has_all v (k # ks) = Inl TypeError"
  by (cases v) (simp_all add: shadowed_def hasOwnProperty_def)

lemma has_all_plain: "truthy v \<Longrightarrow> \<not> shadowed v \<Longrightarrow> \<exists>b. has_all v ks = Inr b"
  by (induction ks; cases v) (auto simp: shadowed_def hasOwnProperty_def truthy_def)

lemma shadowed_truthy: "shadowed v \<Longrightarrow> truthy v"
  by (cases v) (simp_all add: shadowed_def truthy_def)

lemma actualFormat_throws:
  "(\<exists>e. actualFormat format jsonData = Inl e) \<longleftrightarrow>
     ((format = [] \<or> format = ''auto'') \<and> shadowed jsonData)"
proof (cases "shadowed jsonData")
  case True
  then show ?thesis
    by (simp add: actualFormat_def isChirpStackReceiveFormat_def has_all_shadowed shadowed_truthy
        del: has_all.simps)
next
  case False
  show ?thesis
  proof (cases "truthy jsonData")
    case t: True
    obtain a where a: "has_all jsonData [''applicationID'', ''deviceName'', ''devEUI'', ''object''] = Inr a"
      using has_all_plain [OF t False] by blast
    obtain b where b: "has_all jsonData [''confirmed'', ''data'', ''fPort''] = Inr b"
      using has_all_plain [OF t False] by blast
    show ?thesis
      using False t a b
      by (simp add: actualFormat_def isChirpStackReceiveFormat_def isChirpStackSendFormat_def
          del: has_all.simps)
  next
    case f: False
    with False show ?thesis
      by (simp add: actualFormat_def isChirpStackReceiveFormat_def isChirpStackSendFormat_def)
  qed
qed

lemma reservoir_extract_cases:
  "reservoir_extract JSON_parse (isJson, path, format) m =
     (if isJson then
        (case JSON_parse m of
           None \<Rightarrow> None
         | Some jsonData \<Rightarrow>
             if ((format = [] \<or> format = ''auto'') \<and> shadowed jsonData) \<or>
                toString_throws (extractValueFromJSON jsonData path) \<or>
                absent (extractValueFromJSON jsonData path)
             then None else Some (extractValueFromJSON jsonData path))
      else Some (JStr (trim m)))"
proof -
  have "(case actualFormat format jsonData of Inl _ \<Rightarrow> None | Inr _ \<Rightarrow> x) =
        (if (format = [] \<or> format = ''auto'') \<and> shadowed jsonData then None else x)"
    for jsonData and x :: "jsval option"
    using actualFormat_throws [of format jsonData]
    by (cases "actualFormat format jsonData") auto
  then show ?thesis
    by (auto simp: reservoir_extract_def absent_def Let_def split: option.splits)
qed

text \<open>
  C8 as stated fails: a pump message whose value is outside the boolean-like set is not
  dropped. On a raw pump topic the text \<open>banana\<close> switches the pump state of
  \<open>reservoir0\<close> from on to off, sets \<open>lastUpdate\<close> and emits the pump event.
\<close>

theorem pump_unrecognised_counterexample:
  "case handleReservoirTopicMessage parse0 parseFloat0 5
          (reservoir0\<lparr>isJsonPayloadPump := False\<rparr>) Map.empty ''banana'' Pump (Some 5) of
     (r, h, evs, thrown) \<Rightarrow>
       pumpStatus reservoir0 = True \<and> r_lastUpdate reservoir0 = 0 \<and>
       pumpStatus r = False \<and> r_lastUpdate r = 5 \<and>
       evs = [reservoir_pump_changed ''r1'' False 5] \<and> thrown = None"
  by (simp add: pump_message reservoir_extract_def trim_def ws1_def ws2_def ws3_def
      toLowerCase_def lower_char_def handleReservoirPumpData_def pump_of_def reservoir0_def
      stamp_def)

text \<open>
  C8, amended. A pump-channel message is dropped, leaving the reservoir and the history
  unchanged and emitting nothing, exactly when no value is extracted from it. In raw
  mode this never happens: the trimmed text is the value. In JSON mode it happens when
  the text does not parse, when the format is empty or \<open>auto\<close> and the document is an
  object with an own key \<open>hasOwnProperty\<close> (the shape test throws), when the path
  yields \<open>null\<close> or \<open>undefined\<close>, and when the path yields a value that cannot be
  converted to a string (an object with an own key \<open>toString\<close>, or an array that
  holds one: logging it throws). Every other message assigns the pump state and
  \<open>lastUpdate\<close> (and \<open>receivedTimestamp\<close> when it is shown) and emits the pump event:
  the state is on for the strings \<open>1\<close> and \<open>true\<close> (in any letter case), the number 1,
  the boolean \<open>true\<close> and for arrays and objects, and off for every other value, inside
  the boolean-like set or not.
\<close>

theorem pump_message_coerced:
  "handleReservoirTopicMessage JSON_parse parseFloat now r h m Pump rts =
     (let v = (if isJsonPayloadPump r
               then (case JSON_parse m of
                       None \<Rightarrow> JNull
                     | Some jsonData \<Rightarrow> extractValueFromJSON jsonData (jsonPathPump r))
               else JStr (trim m));
          dropped =
            (isJsonPayloadPump r \<and>
             (case JSON_parse m of
                None \<Rightarrow> True
              | Some jsonData \<Rightarrow>
                  ((jsonFormatPump r = [] \<or> jsonFormatPump r = ''auto'') \<and> shadowed jsonData) \<or>
                  toString_throws v \<or> v = JNull \<or> v = JUndefined));
          on = (v = JStr ''1'' \<or> (\<exists>s. v = JStr s \<and> toLowerCase s = ''true'') \<or> v = JNum 1 \<or>
                v = JBool True \<or> (\<exists>xs. v = JArr xs) \<or> (\<exists>kvs. v = JObj kvs))
      in if dropped then (r, h, [], None)
         else ((case stamp rts (r_showReceivedTimestamp r) of
                  None \<Rightarrow> r\<lparr>pumpStatus := on, r_lastUpdate := now\<rparr>
                | Some t \<Rightarrow> r\<lparr>pumpStatus := on, r_lastUpdate := now,
                               r_receivedTimestamp := Some t\<rparr>),
               h, [reservoir_pump_changed (r_id r) on now], None))"
proof -
  have on: "pump_of v =
      (v = JStr ''1'' \<or> (\<exists>s. v = JStr s \<and> toLowerCase s = ''true'') \<or> v = JNum 1 \<or>
       v = JBool True \<or> (\<exists>xs. v = JArr xs) \<or> (\<exists>kvs. v = JObj kvs))" for v
    by (cases v) (auto simp: pump_of_def)
  have pd: "handleReservoirPumpData now r b rts =
      ((case stamp rts (r_showReceivedTimestamp r) of
          None \<Rightarrow> r\<lparr>pumpStatus := b, r_lastUpdate := now\<rparr>
        | Some t \<Rightarrow> r\<lparr>pumpStatus := b, r_lastUpdate := now, r_receivedTimestamp := Some t\<rparr>),
       [reservoir_pump_changed (r_id r) b now])" for b
    by (simp add: handleReservoirPumpData_def Let_def split: option.splits)
  show ?thesis
    unfolding pump_message reservoir_extract_cases pd on [symmetric] Let_def
    by (auto simp: absent_def split: option.splits)
qed

text \<open>A raw pump message is trimmed of all white space, a no-break space included.\<close>

lemma pump_raw_nbsp:
  "pumpStatus (fst (handleReservoirTopicMessage JSON_parse parseFloat now
      (r\<lparr>isJsonPayloadPump := False\<rparr>) h [CHR 0xC2, CHR 0xA0, CHR ''1'', CHR 0x0A] Pump rts)) = True"
  by (simp add: pump_message reservoir_extract_def trim_def ws1_def ws2_def ws3_def
      handleReservoirPumpData_def pump_of_def Let_def split: option.splits)

subsection \<open>A pump-on command fed back through ingestion (C2)\<close>

lemma base64_on: "base64 ''1'' = ''MQ==''"
  by (simp add: base64_def b64_char_def)

lemma extract_data:
  "extractValueFromJSON (JObj [(''confirmed'', c), (''data'', d), (''fPort'', p)]) ''data'' = d"
  by (simp add: extractValueFromJSON_def truthy_def js_includes_def typeof_object_def
      hasOwnProperty_def get_prop_def)

lemma extract_value:
  "extractValueFromJSON (JObj [(''value'', d)]) ''value'' = d"
  by (simp add: extractValueFromJSON_def truthy_def js_includes_def typeof_object_def
      hasOwnProperty_def get_prop_def)

lemma pump_of_on: "pump_of (JStr ''MQ=='') = False" "pump_of (JStr ''1'') = True"
  by (simp_all add: pump_of_def toLowerCase_def lower_char_def)

text \<open>
  The other two encodings of the command are recovered by ingestion: the single-key
  wrapper read at the path \<open>value\<close>, and the bare text.
\<close>

lemma pump_on_simple_recovered:
  assumes "JSON_parse (JSON_stringify (JObj [(''value'', JStr ''1'')])) = Some (JObj [(''value'', JStr ''1'')])"
    and "isJsonPayloadPump r" "jsonFormatPump r = ''simple''" "jsonPathPump r = ''value''"
  shows "pumpStatus (fst (handleReservoirTopicMessage JSON_parse parseFloat now r h
            (pump_payload JSON_stringify r True) Pump rts)) = True"
  using assms
  by (simp add: pump_message pump_payload_def reservoir_extract_def
      actualFormat_def extract_value pump_of_on handleReservoirPumpData_def Let_def
      split: option.splits)

lemma pump_on_raw_recovered:
  assumes "\<not> isJsonPayloadPump r"
  shows "pumpStatus (fst (handleReservoirTopicMessage JSON_parse parseFloat now r h
            (pump_payload JSON_stringify r True) Pump rts)) = True"
  using assms
  by (simp add: pump_message pump_payload_def reservoir_extract_def trim_def ws1_def ws2_def ws3_def
      pump_of_on handleReservoirPumpData_def Let_def split: option.splits)

text \<open>
  C2 fails on the code. With the pump channel in JSON mode, the send envelope and the
  path \<open>data\<close>, the payload of a pump-on command carries \<open>data = "MQ=="\<close>, the base64
  of \<open>1\<close>. Ingestion reads the string at \<open>data\<close> without decoding it and compares it
  with \<open>1\<close> and \<open>true\<close>: the pump state becomes off. This holds for every
  \<open>JSON.parse\<close> that reads back what \<open>JSON.stringify\<close> wrote.
\<close>

theorem pump_on_envelope_not_recovered:
  assumes roundtrip:
      "JSON_parse (JSON_stringify (JObj [(''confirmed'', JBool True),
          (''data'', JStr (base64 ''1'')), (''fPort'', JNum 1)])) =
       Some (JObj [(''confirmed'', JBool True), (''data'', JStr (base64 ''1'')), (''fPort'', JNum 1)])"
    and config: "isJsonPayloadPump r" "jsonFormatPump r = ''chirpstack_send''" "jsonPathPump r = ''data''"
  shows "pumpStatus (fst (handleReservoirTopicMessage JSON_parse parseFloat now r h
            (pump_payload JSON_stringify r True) Pump rts)) = False"
  using roundtrip config
  by (simp add: pump_message pump_payload_def createChirpStackSendPayload_def reservoir_extract_def
      actualFormat_def extract_data base64_on pump_of_on handleReservoirPumpData_def Let_def
      split: option.splits)

theorem pump_on_envelope_not_recovered_witness:
  "pumpStatus reservoir0 = True \<and>
   pump_payload stringify0 reservoir0 True = envelope_on_text \<and>
   pumpStatus (fst (handleReservoirTopicMessage parse0 parseFloat0 5 reservoir0 Map.empty
      (pump_payload stringify0 reservoir0 True) Pump (Some 5))) = False"
proof -
  have env: "JObj [(''confirmed'', JBool True), (''data'', JStr (base64 ''1'')), (''fPort'', JNum 1)]
      = envelope_on"
    by (simp add: envelope_on_def base64_on)
  have rt: "parse0 (stringify0 (JObj [(''confirmed'', JBool True),
          (''data'', JStr (base64 ''1'')), (''fPort'', JNum 1)])) =
       Some (JObj [(''confirmed'', JBool True), (''data'', JStr (base64 ''1'')), (''fPort'', JNum 1)])"
    unfolding env by (simp add: parse0_def stringify0_def)
  have cfg: "isJsonPayloadPump reservoir0" "jsonFormatPump reservoir0 = ''chirpstack_send''"
    "jsonPathPump reservoir0 = ''data''" "pumpStatus reservoir0 = True"
    by (simp_all add: reservoir0_def)
  have payload: "pump_payload stringify0 reservoir0 True = envelope_on_text"
    using cfg by (simp add: pump_payload_def createChirpStackSendPayload_def env stringify0_def)
  show ?thesis
    using pump_on_envelope_not_recovered
        [where JSON_parse = parse0 and JSON_stringify = stringify0 and r = reservoir0
           and parseFloat = parseFloat0 and now = 5 and h = Map.empty and rts = "Some 5",
         OF rt cfg(1-3)]
      cfg(4) payload by simp
qed

subsection \<open>Registration of a sensor (C10)\<close>

lemma extract_config:
  "sensor_config s = sensor_config s' \<Longrightarrow>
   sensor_extract P F s m = sensor_extract P F s' m"
  by (simp add: sensor_config_def sensor_extract_def cong: option.case_cong sum.case_cong)

lemma handleSensorData_config:
  "sensor_config (fst (handleSensorData now s h v rts)) = sensor_config s"
  by (simp add: sensor_after sensor_config_def)

lemma handleSensorData_topic:
  "s_topic (fst (handleSensorData now s h v rts)) = s_topic s"
  by (simp add: sensor_after)

lemma sensor_history_other:
  "k \<noteq> s_id s \<Longrightarrow> fst (snd (handleSensorData now s h v rts)) k = h k"
  by (simp add: sensor_history)

lemma deliver_reservoir_sensors:
  "sensors (fst (fst (deliver P F now m acc (ReservoirRef j, ch)))) = sensors (fst acc) \<and>
   sensorHistory (fst (fst (deliver P F now m acc (ReservoirRef j, ch)))) = sensorHistory (fst acc)"
  by (cases acc) (simp add: deliver_def case_prod_beta)

lemma deliver_sensor_none:
  "sensor_extract P F (sensors (fst acc) ! i) m = None \<Longrightarrow>
   fst (deliver P F now m acc (SensorRef i, ch)) = acc"
  by (cases acc) (simp add: deliver_def)

lemma deliver_sensor_some:
  "sensor_extract P F (sensors st ! i) m = Some v \<Longrightarrow>
   fst (fst (deliver P F now m (st, out) (SensorRef i, ch))) =
     st\<lparr>sensors := (sensors st)[i := fst (handleSensorData now (sensors st ! i) (sensorHistory st) v (Some now))],
        sensorHistory := fst (snd (handleSensorData now (sensors st ! i) (sensorHistory st) v (Some now)))\<rparr>"
  by (simp add: deliver_def case_prod_beta)

lemma deliver_step:
  assumes inv: "map sensor_config (sensors (fst acc)) = map sensor_config ss"
    and valid: "valid_target (length ss) t"
  shows "map sensor_config (sensors (fst (fst (deliver P F now m acc t)))) = map sensor_config ss"
    and "\<not> hits P F m ss t n \<Longrightarrow> sensors (fst (fst (deliver P F now m acc t))) ! n = sensors (fst acc) ! n"
    and "(\<forall>i. hits P F m ss t i \<longrightarrow> s_id (ss ! i) \<noteq> k) \<Longrightarrow>
         sensorHistory (fst (fst (deliver P F now m acc t))) k = sensorHistory (fst acc) k"
proof -
  obtain st out where acc: "acc = (st, out)" by (cases acc)
  obtain e ch where t: "t = (e, ch)" by (cases t)
  have len: "length (sensors st) = length ss"
    using inv acc by (metis fst_conv length_map)
  have cfg: "i < length ss \<Longrightarrow> sensor_config (sensors st ! i) = sensor_config (ss ! i)" for i
    using inv acc len by (metis fst_conv nth_map)
  show "map sensor_config (sensors (fst (fst (deliver P F now m acc t)))) = map sensor_config ss"
  proof (cases e)
    case (SensorRef i)
    then have i: "i < length ss" using valid t by (simp add: valid_target_def)
    show ?thesis
    proof (cases "sensor_extract P F (sensors st ! i) m")
      case None
      then show ?thesis using inv acc t SensorRef by (simp add: deliver_sensor_none)
    next
      case (Some v)
      have "map sensor_config ((sensors st)[i := fst (handleSensorData now (sensors st ! i) (sensorHistory st) v (Some now))])
          = (map sensor_config (sensors st))[i := sensor_config (sensors st ! i)]"
        by (simp add: map_update handleSensorData_config)
      also have "\<dots> = map sensor_config (sensors st)"
        using i len by (simp add: list_update_same_conv)
      finally show ?thesis
        using inv acc t SensorRef Some by (simp add: deliver_sensor_some)
    qed
  next
    case (ReservoirRef j)
    then show ?thesis using inv t by (simp add: deliver_reservoir_sensors)
  qed
  show "sensors (fst (fst (deliver P F now m acc t))) ! n = sensors (fst acc) ! n" if nh: "\<not> hits P F m ss t n"
  proof (cases e)
    case (SensorRef i)
    then have i: "i < length ss" using valid t by (simp add: valid_target_def)
    show ?thesis
    proof (cases "sensor_extract P F (sensors st ! i) m")
      case None
      then show ?thesis using acc t SensorRef by (simp add: deliver_sensor_none)
    next
      case (Some v)
      then have "sensor_extract P F (ss ! i) m \<noteq> None"
        using extract_config [OF cfg [OF i], of P F m] by simp
      with nh t SensorRef have "i \<noteq> n" by (auto simp: hits_def)
      then show ?thesis using acc t SensorRef Some by (simp add: deliver_sensor_some)
    qed
  next
    case (ReservoirRef j)
    then show ?thesis using t by (simp add: deliver_reservoir_sensors)
  qed
  show "sensorHistory (fst (fst (deliver P F now m acc t))) k = sensorHistory (fst acc) k"
    if nh: "\<forall>i. hits P F m ss t i \<longrightarrow> s_id (ss ! i) \<noteq> k"
  proof (cases e)
    case (SensorRef i)
    then have i: "i < length ss" using valid t by (simp add: valid_target_def)
    show ?thesis
    proof (cases "sensor_extract P F (sensors st ! i) m")
      case None
      then show ?thesis using acc t SensorRef by (simp add: deliver_sensor_none)
    next
      case (Some v)
      then have "sensor_extract P F (ss ! i) m \<noteq> None"
        using extract_config [OF cfg [OF i], of P F m] by simp
      with nh t SensorRef have "s_id (ss ! i) \<noteq> k" by (auto simp: hits_def)
      moreover have "s_id (sensors st ! i) = s_id (ss ! i)"
        using cfg [OF i] by (simp add: sensor_config_def)
      ultimately show ?thesis
        using acc t SensorRef Some
        by (simp add: deliver_sensor_some sensor_history_other)
    qed
  next
    case (ReservoirRef j)
    then show ?thesis using t by (simp add: deliver_reservoir_sensors)
  qed
qed

lemma deliver_all_Cons:
  "deliver_all P F now m acc (t # ts) =
     (case snd (deliver P F now m acc t) of
        None \<Rightarrow> deliver_all P F now m (fst (deliver P F now m acc t)) ts
      | Some e \<Rightarrow> fst (deliver P F now m acc t))"
  by (simp add: case_prod_beta split: option.splits)

lemma deliver_all_sensors:
  assumes "map sensor_config (sensors (fst acc)) = map sensor_config ss"
    and "\<forall>t \<in> set ts. valid_target (length ss) t"
  shows "(\<forall>t \<in> set ts. \<not> hits P F m ss t n) \<longrightarrow>
           sensors (fst (deliver_all P F now m acc ts)) ! n = sensors (fst acc) ! n"
    and "(\<forall>t \<in> set ts. \<forall>i. hits P F m ss t i \<longrightarrow> s_id (ss ! i) \<noteq> k) \<longrightarrow>
           sensorHistory (fst (deliver_all P F now m acc ts)) k = sensorHistory (fst acc) k"
  using assms
proof (induction ts arbitrary: acc)
  case Nil
  { case 1 show ?case by simp }
  { case 2 show ?case by simp }
next
  case (Cons t ts)
  { case 1
    have v: "valid_target (length ss) t" and vs: "\<forall>t \<in> set ts. valid_target (length ss) t"
      using 1(2) by simp_all
    note step = deliver_step [OF 1(1) v, where P = P and F = F and now = now and m = m]
    show ?case
      unfolding deliver_all_Cons
      using Cons.IH(1) [OF step(1) vs] step(2) [of n]
      by (cases "snd (deliver P F now m acc t)") simp_all }
  { case 2
    have v: "valid_target (length ss) t" and vs: "\<forall>t \<in> set ts. valid_target (length ss) t"
      using 2(2) by simp_all
    note step = deliver_step [OF 2(1) v, where P = P and F = F and now = now and m = m]
    show ?case
      unfolding deliver_all_Cons
      using Cons.IH(2) [OF step(1) vs] step(3) [of k]
      by (cases "snd (deliver P F now m acc t)") simp_all }
qed

lemma resolve_valid: "\<forall>t \<in> set (resolve st topic). valid_target (length (sensors st)) t"
  by (auto simp: resolve_def relatedSensors_def valid_target_def split: option.splits)

lemma resolve_sensor_topic:
  "(SensorRef i, ch) \<in> set (resolve st topic) \<Longrightarrow> s_topic (sensors st ! i) = topic"
  by (auto simp: resolve_def relatedSensors_def split: option.splits if_splits)

lemma resolve_hits:
  "t \<in> set (resolve st topic) \<Longrightarrow> hits P F m (sensors st) t i \<Longrightarrow>
   i < length (sensors st) \<and> ingests P F (sensors st ! i) topic m"
proof -
  assume t: "t \<in> set (resolve st topic)" and h: "hits P F m (sensors st) t i"
  obtain e ch where tt: "t = (e, ch)" by (cases t)
  with h have e: "e = SensorRef i" and x: "sensor_extract P F (sensors st ! i) m \<noteq> None"
    by (simp_all add: hits_def)
  from resolve_valid t have "valid_target (length (sensors st)) t" by blast
  then have "i < length (sensors st)" using tt e by (simp add: valid_target_def)
  moreover have "s_topic (sensors st ! i) = topic"
    using t tt e resolve_sensor_topic by blast
  ultimately show ?thesis using x by (simp add: ingests_def)
qed

lemma on_message_sensor_kept:
  assumes "\<not> ingests P F (sensors st ! n) topic m"
  shows "sensors (fst (on_message P F now st topic m)) ! n = sensors st ! n"
proof -
  have "\<forall>t \<in> set (resolve st topic). \<not> hits P F m (sensors st) t n"
    using assms resolve_hits by blast
  then show ?thesis
    using deliver_all_sensors(1) [where acc = "(st, [])" and ss = "sensors st"
        and ts = "resolve st topic" and P = P and F = F and m = m and n = n and now = now]
      resolve_valid [of st topic]
    by (simp add: on_message_def)
qed

lemma on_message_history_kept:
  assumes "\<forall>i < length (sensors st). s_id (sensors st ! i) = k \<longrightarrow>
             \<not> ingests P F (sensors st ! i) topic m"
  shows "sensorHistory (fst (on_message P F now st topic m)) k = sensorHistory st k"
proof -
  have "\<forall>t \<in> set (resolve st topic). \<forall>i. hits P F m (sensors st) t i \<longrightarrow> s_id (sensors st ! i) \<noteq> k"
    using assms resolve_hits by blast
  then show ?thesis
    using deliver_all_sensors(2) [where acc = "(st, [])" and ss = "sensors st"
        and ts = "resolve st topic" and P = P and F = F and m = m and k = k and now = now]
      resolve_valid [of st topic]
    by (simp add: on_message_def)
qed

lemma post_sensor_Inr:
  assumes "post_sensor now now_id st body = Inr (st', sensor)"
  shows "sensor = new_sensor now now_id body"
    and "st' = st\<lparr>sensors := sensors st @ [sensor],
                   sensorHistory :=
                     (if sensorHistory st (s_id sensor) = None \<and> s_id sensor \<notin> set object_members
                      then (sensorHistory st)(s_id sensor \<mapsto> [])
                      else sensorHistory st)\<rparr>"
  using assms by (auto simp: post_sensor_def Let_def split: if_splits option.splits)

lemma post_sensor_result:
  assumes "post_sensor now now_id st body = Inr (st', sensor)"
  shows "s_value sensor = 0" "s_status sensor = Offline" "s_receivedTimestamp sensor = None"
    "b_isJsonPayload body = None \<longrightarrow> isJsonPayload sensor = False"
    "b_jsonFormat body = None \<longrightarrow> jsonFormat sensor = ''chirpstack_receive''"
    "b_mqttQos body = None \<longrightarrow> mqttQos sensor = 1"
    "sensors st' = sensors st @ [sensor]"
    "sensorHistory st' (s_id sensor) =
       (if inherited (sensorHistory st) (s_id sensor) then None
        else Some (series (sensorHistory st) (s_id sensor)))"
    "\<forall>k. k \<noteq> s_id sensor \<longrightarrow> sensorHistory st' k = sensorHistory st k"
proof -
  note r = post_sensor_Inr [OF assms]
  show "s_value sensor = 0" "s_status sensor = Offline" "s_receivedTimestamp sensor = None"
    "b_isJsonPayload body = None \<longrightarrow> isJsonPayload sensor = False"
    "b_jsonFormat body = None \<longrightarrow> jsonFormat sensor = ''chirpstack_receive''"
    "b_mqttQos body = None \<longrightarrow> mqttQos sensor = 1"
    unfolding r(1) by (simp_all add: new_sensor_def)
  show "sensors st' = sensors st @ [sensor]"
    by (subst r(2)) simp
  show "sensorHistory st' (s_id sensor) =
       (if inherited (sensorHistory st) (s_id sensor) then None
        else Some (series (sensorHistory st) (s_id sensor)))"
    by (subst r(2)) (auto simp: series_def inherited_def split: option.splits)
  show "\<forall>k. k \<noteq> s_id sensor \<longrightarrow> sensorHistory st' k = sensorHistory st k"
    by (subst r(2)) simp
qed

text \<open>
  C10 as stated fails for the history. The body is spread over the identifier, and the
  handler creates the series only when reading the history under the sensor's
  identifier yields nothing. A body that carries the identifier \<open>s1\<close>, under which
  \<open>station0\<close> stores 1000 points, yields a new sensor whose series has these 1000
  points; a body that carries the identifier \<open>constructor\<close> yields a sensor for which
  no series is stored.
\<close>

theorem post_sensor_history_counterexample:
  "(case post_sensor 7 ''7'' station0 (body0\<lparr>b_id := Some ''s1''\<rparr>) of
      Inl e \<Rightarrow> False
    | Inr (st', sensor) \<Rightarrow>
        s_id sensor = ''s1'' \<and> length (series (sensorHistory st') (s_id sensor)) = 1000) \<and>
   (case post_sensor 7 ''7'' station_empty (body0\<lparr>b_id := Some ''constructor''\<rparr>) of
      Inl e \<Rightarrow> False
    | Inr (st', sensor) \<Rightarrow>
        s_id sensor = ''constructor'' \<and> sensorHistory st' (s_id sensor) = None)"
  by (simp add: post_sensor_def new_sensor_def body0_def station0_def station_empty_def
      validateJSONPath_def object_members_def series_def Let_def)

text \<open>
  C10, amended. Every sensor created through registration has \<open>value = 0\<close>,
  \<open>status = offline\<close> and \<open>receivedTimestamp = null\<close>, and, when the caller did not
  supply them, \<open>isJsonPayload = false\<close>, \<open>jsonFormat = chirpstack_receive\<close> and QoS 1.
  Its history series is empty, with two exceptions: a series already stored under its
  identifier is kept, and no series is stored when the identifier names an inherited
  member of the history object (such as \<open>constructor\<close>). The series of the other
  identifiers are left alone. A message that the sensor does not ingest (another
  topic, or a payload from which no number is extracted) leaves the sensor's record as
  it is, and a message that no sensor with this identifier ingests leaves its series as
  it is.
\<close>

theorem post_sensor_initial_state:
  assumes "post_sensor now now_id st body = Inr (st', sensor)"
  shows "s_value sensor = 0 \<and> s_status sensor = Offline \<and> s_receivedTimestamp sensor = None \<and>
     (b_isJsonPayload body = None \<longrightarrow> isJsonPayload sensor = False) \<and>
     (b_jsonFormat body = None \<longrightarrow> jsonFormat sensor = ''chirpstack_receive'') \<and>
     (b_mqttQos body = None \<longrightarrow> mqttQos sensor = 1) \<and>
     sensors st' = sensors st @ [sensor] \<and>
     sensorHistory st' (s_id sensor) =
       (case sensorHistory st (s_id sensor) of
          Some ps \<Rightarrow> Some ps
        | None \<Rightarrow> if s_id sensor \<in> set object_members then None else Some []) \<and>
     (\<forall>k. k \<noteq> s_id sensor \<longrightarrow> sensorHistory st' k = sensorHistory st k) \<and>
     (\<not> ingests JSON_parse parseFloat sensor topic m \<longrightarrow>
        sensors (fst (on_message JSON_parse parseFloat t st' topic m)) ! length (sensors st) = sensor) \<and>
     ((\<forall>i < length (sensors st'). s_id (sensors st' ! i) = s_id sensor \<longrightarrow>
          \<not> ingests JSON_parse parseFloat (sensors st' ! i) topic m) \<longrightarrow>
        sensorHistory (fst (on_message JSON_parse parseFloat t st' topic m)) (s_id sensor) =
          sensorHistory st' (s_id sensor))"
proof -
  note r = post_sensor_result [OF assms]
  have nth: "sensors st' ! length (sensors st) = sensor" by (simp add: r(7))
  have a: "\<not> ingests JSON_parse parseFloat sensor topic m \<longrightarrow>
        sensors (fst (on_message JSON_parse parseFloat t st' topic m)) ! length (sensors st) = sensor"
    using on_message_sensor_kept [of JSON_parse parseFloat st' "length (sensors st)" topic m t] nth
    by simp
  have b: "(\<forall>i < length (sensors st'). s_id (sensors st' ! i) = s_id sensor \<longrightarrow>
          \<not> ingests JSON_parse parseFloat (sensors st' ! i) topic m) \<longrightarrow>
        sensorHistory (fst (on_message JSON_parse parseFloat t st' topic m)) (s_id sensor) =
          sensorHistory st' (s_id sensor)"
    using on_message_history_kept [of st' "s_id sensor" JSON_parse parseFloat topic m t] by blast
  have h: "sensorHistory st' (s_id sensor) =
       (case sensorHistory st (s_id sensor) of
          Some ps \<Rightarrow> Some ps
        | None \<Rightarrow> if s_id sensor \<in> set object_members then None else Some [])"
    unfolding r(8) by (simp add: inherited_def series_def split: option.splits)
  show ?thesis
    using r(1-7,9) h a b by blast
qed

theorem post_sensor_initial_state_witness:
  "post_sensor 7 ''7'' station_empty body0 = Inr (station1, sensor1) \<and>
   sensors (fst (on_message parse0 parseFloat0 9 station1 ''farm/temp'' ''banana'')) ! 0 = sensor1 \<and>
   sensorHistory (fst (on_message parse0 parseFloat0 9 station1 ''farm/temp'' ''banana'')) ''7'' = Some []"
proof -
  have p: "post_sensor 7 ''7'' station_empty body0 = Inr (station1, sensor1)"
    by (simp add: post_sensor_def new_sensor_def body0_def station_empty_def station1_def
        sensor1_def validateJSONPath_def object_members_def Let_def)
  have n: "\<not> ingests parse0 parseFloat0 sensor1 ''farm/temp'' ''banana''"
    by (simp add: ingests_def sensor_extract_def sensor1_def parseFloat0_def)
  have all: "\<forall>i < length (sensors station1). s_id (sensors station1 ! i) = s_id sensor1 \<longrightarrow>
          \<not> ingests parse0 parseFloat0 (sensors station1 ! i) ''farm/temp'' ''banana''"
    using n by (simp add: station1_def)
  have len: "length (sensors station_empty) = 0" by (simp add: station_empty_def)
  have h: "sensorHistory station1 (s_id sensor1) = Some []" "s_id sensor1 = ''7''"
    by (simp_all add: station1_def sensor1_def)
  from post_sensor_initial_state [OF p, of parse0 parseFloat0 "''farm/temp''" "''banana''" 9] n all
  have "sensors (fst (on_message parse0 parseFloat0 9 station1 ''farm/temp'' ''banana'')) !
          length (sensors station_empty) = sensor1"
    and "sensorHistory (fst (on_message parse0 parseFloat0 9 station1 ''farm/temp'' ''banana''))
          (s_id sensor1) = sensorHistory station1 (s_id sensor1)"
    by blast+
  with p len h show ?thesis by simp
qed

subsection \<open>The path extractor on grammar-valid paths (C7)\<close>





























declare extract_parts.simps(2) [simp del]















lemma length_target_last:
  "length_target cur [seg] =
     (case cur of
        JArr xs \<Rightarrow> if seg = (''length'', []) then Some (length xs) else None
      | _ \<Rightarrow> None)"
  by simp










end
